theory Spec2Isabelle
  imports Main
begin

section \<open>Data model of the offline store (client/src/lib offline module)\<close>

text \<open>
  The module keeps four slots in an idb-keyval store (\<open>user\<close>, \<open>token\<close>, \<open>recipes\<close>,
  \<open>outbox\<close>) and replays queued mutations against the recipe API. The embedding is
  sequential: every \<open>await\<close> is a plain call, storage calls do not fail, and nothing else
  touches the store while a function of the module runs.
\<close>

text \<open>
  The value of an \<open>id\<close> property. Identifiers are compared with \<open>===\<close> and \<open>!==\<close>, which on
  these values is plain equality: a number never equals a string, and a missing property
  reads as \<open>undefined\<close>.
\<close>

datatype ident = Undefined | NumId int | StrId string

type_synonym fields = "(string \<times> string) list"

text \<open>A recipe object: its \<open>id\<close> property and the rest of its properties.\<close>

record recipe =
  recipe_id :: ident
  recipe_rest :: fields

datatype op_type = Create | Update | Delete

datatype sync_status = Pending | Syncing | Synced | Error

text \<open>
  \<open>interface OutboxItem\<close>. Its \<open>data\<close> is declared \<open>any\<close>; it is modelled as what the
  callers queue (recipe-form.tsx): a recipe object, whose \<open>id\<close> may be missing.
\<close>

record outbox_item =
  item_id :: string
  item_type :: op_type
  item_data :: recipe
  item_timestamp :: nat
  item_status :: sync_status
  item_error :: "string option"

text \<open>\<open>Partial<OutboxItem>\<close>: every property may be absent.\<close>

record outbox_updates =
  upd_id :: "string option"
  upd_type :: "op_type option"
  upd_data :: "recipe option"
  upd_timestamp :: "nat option"
  upd_status :: "sync_status option"
  upd_error :: "string option"

text \<open>\<open>Omit<OutboxItem, 'id' | 'status' | 'timestamp'>\<close>, the argument of \<open>addToOutbox\<close>.\<close>

record new_item =
  new_type :: op_type
  new_data :: recipe
  new_error :: "string option"

subsection \<open>The network as the sync pass sees it\<close>

datatype http_method = POST | PUT | DELETE

text \<open>\<open>/api/recipes\<close> or \<open>/api/recipes/${id}\<close>.\<close>

datatype url = RecipesUrl | RecipeUrl ident

record request =
  req_method :: http_method
  req_url :: url
  req_bearer :: string
  req_body :: "fields option"

text \<open>
  A thrown value: an \<open>Error\<close> with its message, or something that is not an \<open>Error\<close>
  (the \<open>catch\<close> block tests \<open>error instanceof Error\<close>).
\<close>

datatype thrown = JsError string | NonError

text \<open>
  What \<open>await response.json()\<close> gives: it throws, it yields \<open>null\<close> (reading \<open>result.id\<close>
  then throws a TypeError), or it yields a value whose \<open>id\<close> property is the given one.
\<close>

datatype json_result = JsonThrows thrown | JsonNull | JsonValue ident

record response =
  resp_ok :: bool
  resp_status :: nat
  resp_json :: json_result

datatype fetch_result = FetchThrows thrown | Responded response

text \<open>The server: its answer to a request may depend on the requests sent before.\<close>

type_synonym api = "request list \<Rightarrow> request \<Rightarrow> fetch_result"

subsection \<open>The state\<close>

text \<open>
  The four slots of the store (\<open>None\<close> is an absent key, for which \<open>get\<close> returns
  \<open>undefined\<close>), \<open>navigator.onLine\<close>, and the log of the requests passed to \<open>fetch\<close>.
\<close>

record world =
  user :: "fields option"
  token :: "string option"
  recipes :: "recipe list option"
  outbox :: "outbox_item list option"
  online :: bool
  calls :: "request list"

record sync_result =
  synced :: nat
  errors :: nat

section \<open>Store accessors\<close>

definition saveUser :: "fields \<Rightarrow> world \<Rightarrow> world" where
  "saveUser u w = w\<lparr>user := Some u\<rparr>"

definition getUser :: "world \<Rightarrow> fields option" where
  "getUser w = user w"

definition clearUser :: "world \<Rightarrow> world" where
  "clearUser w = w\<lparr>user := None\<rparr>"

definition saveToken :: "string \<Rightarrow> world \<Rightarrow> world" where
  "saveToken t w = w\<lparr>token := Some t\<rparr>"

definition getToken :: "world \<Rightarrow> string option" where
  "getToken w = token w"

definition clearToken :: "world \<Rightarrow> world" where
  "clearToken w = w\<lparr>token := None\<rparr>"

definition saveRecipes :: "recipe list \<Rightarrow> world \<Rightarrow> world" where
  "saveRecipes rs w = w\<lparr>recipes := Some rs\<rparr>"

text \<open>\<open>recipes || []\<close>\<close>

definition getRecipes :: "world \<Rightarrow> recipe list" where
  "getRecipes w = (case recipes w of None \<Rightarrow> [] | Some rs \<Rightarrow> rs)"

text \<open>\<open>Array.prototype.findIndex\<close>; \<open>None\<close> stands for \<open>-1\<close>.\<close>

primrec findIndex :: "('a \<Rightarrow> bool) \<Rightarrow> 'a list \<Rightarrow> nat option" where
  "findIndex p [] = None"
| "findIndex p (x # xs) =
     (if p x then Some 0 else map_option Suc (findIndex p xs))"

definition saveRecipe :: "recipe \<Rightarrow> world \<Rightarrow> world" where
  "saveRecipe r w =
     (let rs = getRecipes w in
      case findIndex (\<lambda>x. recipe_id x = recipe_id r) rs of
        Some existingIndex \<Rightarrow> saveRecipes (rs[existingIndex := r]) w
      | None \<Rightarrow> saveRecipes (rs @ [r]) w)"

definition deleteRecipe :: "ident \<Rightarrow> world \<Rightarrow> world" where
  "deleteRecipe i w = saveRecipes (filter (\<lambda>r. recipe_id r \<noteq> i) (getRecipes w)) w"

section \<open>The outbox\<close>

text \<open>\<open>outbox || []\<close>\<close>

definition getOutbox :: "world \<Rightarrow> outbox_item list" where
  "getOutbox w = (case outbox w of None \<Rightarrow> [] | Some ob \<Rightarrow> ob)"

text \<open>Decimal rendering of a number in a template literal.\<close>

definition digit :: "nat \<Rightarrow> char" where
  "digit d = ''0123456789'' ! d"

fun show_nat :: "nat \<Rightarrow> string" where
  "show_nat n = (if n < 10 then [digit n] else show_nat (n div 10) @ [digit (n mod 10)])"

declare show_nat.simps [simp del]

text \<open>
  \<open>addToOutbox\<close> reads the clock twice: once for the identifier and once for the
  timestamp. The two readings are the first two arguments.
\<close>

definition addToOutbox :: "nat \<Rightarrow> nat \<Rightarrow> new_item \<Rightarrow> world \<Rightarrow> string \<times> world" where
  "addToOutbox now_id now_ts item w =
     (let ob = getOutbox w;
          i = ''offline_'' @ show_nat now_id;
          newItem = \<lparr>item_id = i, item_type = new_type item, item_data = new_data item,
                     item_timestamp = now_ts, item_status = Pending,
                     item_error = new_error item\<rparr>
      in (i, w\<lparr>outbox := Some (ob @ [newItem])\<rparr>))"

text \<open>\<open>{ ...outbox[index], ...updates }\<close>\<close>

definition merge_updates :: "outbox_item \<Rightarrow> outbox_updates \<Rightarrow> outbox_item" where
  "merge_updates it u =
     \<lparr>item_id = (case upd_id u of None \<Rightarrow> item_id it | Some v \<Rightarrow> v),
      item_type = (case upd_type u of None \<Rightarrow> item_type it | Some v \<Rightarrow> v),
      item_data = (case upd_data u of None \<Rightarrow> item_data it | Some v \<Rightarrow> v),
      item_timestamp = (case upd_timestamp u of None \<Rightarrow> item_timestamp it | Some v \<Rightarrow> v),
      item_status = (case upd_status u of None \<Rightarrow> item_status it | Some v \<Rightarrow> v),
      item_error = (case upd_error u of None \<Rightarrow> item_error it | Some v \<Rightarrow> Some v)\<rparr>"

text \<open>The result is the updated item, or \<open>None\<close> for \<open>null\<close>.\<close>

definition updateOutboxItem ::
    "string \<Rightarrow> outbox_updates \<Rightarrow> world \<Rightarrow> outbox_item option \<times> world" where
  "updateOutboxItem i updates w =
     (let ob = getOutbox w in
      case findIndex (\<lambda>item. item_id item = i) ob of
        None \<Rightarrow> (None, w)
      | Some index \<Rightarrow>
          (let updatedItem = merge_updates (ob ! index) updates
           in (Some updatedItem, w\<lparr>outbox := Some (ob[index := updatedItem])\<rparr>)))"

definition removeFromOutbox :: "string \<Rightarrow> world \<Rightarrow> world" where
  "removeFromOutbox i w =
     w\<lparr>outbox := Some (filter (\<lambda>item. item_id item \<noteq> i) (getOutbox w))\<rparr>"

text \<open>\<open>Promise.all([clearUser(), clearToken(), del('outbox', store)])\<close>\<close>

definition clearOfflineData :: "world \<Rightarrow> world" where
  "clearOfflineData w = (clearToken (clearUser w))\<lparr>outbox := None\<rparr>"

text \<open>
  The store calls of \<open>logout\<close> in auth-context.tsx: \<open>clearToken(); clearUser();\<close>
  (its other statements act on localStorage, React state and the router).
\<close>

definition logout :: "world \<Rightarrow> world" where
  "logout w = clearUser (clearToken w)"

section \<open>The sync pass\<close>

text \<open>\<open>{ status: 'syncing' }\<close>\<close>

definition syncing_update :: outbox_updates where
  "syncing_update =
     \<lparr>upd_id = None, upd_type = None, upd_data = None, upd_timestamp = None,
      upd_status = Some Syncing, upd_error = None\<rparr>"

text \<open>\<open>{ status: 'error', error: msg }\<close>\<close>

definition error_update :: "string \<Rightarrow> outbox_updates" where
  "error_update msg =
     \<lparr>upd_id = None, upd_type = None, upd_data = None, upd_timestamp = None,
      upd_status = Some Error, upd_error = Some msg\<rparr>"

text \<open>\<open>error instanceof Error ? error.message : 'Unknown error'\<close>\<close>

definition error_message :: "thrown \<Rightarrow> string" where
  "error_message e = (case e of JsError m \<Rightarrow> m | NonError \<Rightarrow> ''Unknown error'')"

definition no_token_message :: string where
  "no_token_message = ''No authentication token available''"

text \<open>
  The message of the TypeError raised by reading \<open>result.id\<close> when \<open>result\<close> is \<open>null\<close>
  (the wording is the engine's; this is V8's).
\<close>

definition null_id_message :: string where
  "null_id_message = ''Cannot read properties of null (reading 'id')''"

text \<open>How a block of statements ends: normally, or by throwing.\<close>

datatype completion = Completed | Threw thrown

text \<open>\<open>fetch\<close>: the request is logged, the server answers from the requests before it.\<close>

definition fetch :: "api \<Rightarrow> request \<Rightarrow> world \<Rightarrow> fetch_result \<times> world" where
  "fetch srv rq w = (srv (calls w) rq, w\<lparr>calls := calls w @ [rq]\<rparr>)"

text \<open>
  The identifier remapping after a create: the first cached recipe with the client's
  identifier gets the server's; without such a recipe the cache is not written.
\<close>

definition remap_local_id :: "ident \<Rightarrow> ident \<Rightarrow> world \<Rightarrow> world" where
  "remap_local_id local_id server_id w =
     (let rs = getRecipes w in
      case findIndex (\<lambda>r. recipe_id r = local_id) rs of
        Some recipeIndex \<Rightarrow>
          saveRecipes (rs[recipeIndex := (rs ! recipeIndex)\<lparr>recipe_id := server_id\<rparr>]) w
      | None \<Rightarrow> w)"

text \<open>
  The request of a create or update: \<open>POST /api/recipes\<close> or \<open>PUT /api/recipes/${id}\<close>,
  the body being the queued data without its \<open>id\<close>.
\<close>

definition recipe_request :: "string \<Rightarrow> outbox_item \<Rightarrow> request" where
  "recipe_request tok item =
     (let dat = recipe_rest (item_data item);
          method = (if item_type item = Create then POST else PUT);
          u = (if item_type item = Create then RecipesUrl
               else RecipeUrl (recipe_id (item_data item)))
      in \<lparr>req_method = method, req_url = u, req_bearer = tok, req_body = Some dat\<rparr>)"

definition delete_request :: "string \<Rightarrow> outbox_item \<Rightarrow> request" where
  "delete_request tok item =
     \<lparr>req_method = DELETE, req_url = RecipeUrl (recipe_id (item_data item)),
      req_bearer = tok, req_body = None\<rparr>"

text \<open>The \<open>case 'create': case 'update':\<close> block of the switch.\<close>

definition send_recipe :: "api \<Rightarrow> string \<Rightarrow> outbox_item \<Rightarrow> world \<Rightarrow> completion \<times> world" where
  "send_recipe srv tok item w =
     (case fetch srv (recipe_request tok item) w of
        (FetchThrows e, w1) \<Rightarrow> (Threw e, w1)
      | (Responded response, w1) \<Rightarrow>
          if \<not> resp_ok response
          then (Threw (JsError (''Server returned '' @ show_nat (resp_status response))), w1)
          else (case resp_json response of
                  JsonThrows e \<Rightarrow> (Threw e, w1)
                | JsonNull \<Rightarrow>
                    if item_type item = Create
                    then (Threw (JsError null_id_message), w1)
                    else (Completed, w1)
                | JsonValue result_id \<Rightarrow>
                    if item_type item = Create \<and> result_id \<noteq> recipe_id (item_data item)
                    then (Completed,
                          remap_local_id (recipe_id (item_data item)) result_id w1)
                    else (Completed, w1)))"

text \<open>The \<open>case 'delete':\<close> block: the response is not looked at.\<close>

definition send_delete :: "api \<Rightarrow> string \<Rightarrow> outbox_item \<Rightarrow> world \<Rightarrow> completion \<times> world" where
  "send_delete srv tok item w =
     (case fetch srv (delete_request tok item) w of
        (FetchThrows e, w1) \<Rightarrow> (Threw e, w1)
      | (Responded response, w1) \<Rightarrow> (Completed, w1))"

text \<open>\<open>switch (item.type)\<close>\<close>

definition dispatch :: "api \<Rightarrow> string \<Rightarrow> outbox_item \<Rightarrow> world \<Rightarrow> completion \<times> world" where
  "dispatch srv tok item w =
     (case item_type item of
        Create \<Rightarrow> send_recipe srv tok item w
      | Update \<Rightarrow> send_recipe srv tok item w
      | Delete \<Rightarrow> send_delete srv tok item w)"

text \<open>The body of the \<open>try\<close> block, up to and including \<open>removeFromOutbox\<close>.\<close>

definition sync_item :: "api \<Rightarrow> outbox_item \<Rightarrow> world \<Rightarrow> completion \<times> world" where
  "sync_item srv item w =
     (let w1 = snd (updateOutboxItem (item_id item) syncing_update w) in
      case getToken w1 of
        None \<Rightarrow> (Threw (JsError no_token_message), w1)
      | Some tok \<Rightarrow>
          if tok = [] then (Threw (JsError no_token_message), w1)
          else (case dispatch srv tok item w1 of
                  (Threw e, w2) \<Rightarrow> (Threw e, w2)
                | (Completed, w2) \<Rightarrow> (Completed, removeFromOutbox (item_id item) w2)))"

text \<open>One iteration of the loop: the \<open>try\<close> block, \<open>synced++\<close>, and the \<open>catch\<close> block.\<close>

definition process_item ::
    "api \<Rightarrow> outbox_item \<Rightarrow> world \<times> sync_result \<Rightarrow> world \<times> sync_result" where
  "process_item srv item s =
     (case s of (w, r) \<Rightarrow>
        (case sync_item srv item w of
           (Completed, w') \<Rightarrow> (w', r\<lparr>synced := synced r + 1\<rparr>)
         | (Threw e, w') \<Rightarrow>
             (snd (updateOutboxItem (item_id item) (error_update (error_message e)) w'),
              r\<lparr>errors := errors r + 1\<rparr>)))"

text \<open>\<open>for (const item of pendingItems)\<close>\<close>

primrec process_items ::
    "api \<Rightarrow> outbox_item list \<Rightarrow> world \<times> sync_result \<Rightarrow> world \<times> sync_result" where
  "process_items srv [] s = s"
| "process_items srv (item # rest) s = process_items srv rest (process_item srv item s)"

definition pendingItems :: "world \<Rightarrow> outbox_item list" where
  "pendingItems w = filter (\<lambda>item. item_status item = Pending) (getOutbox w)"

definition processOutbox :: "api \<Rightarrow> world \<Rightarrow> sync_result \<times> world" where
  "processOutbox srv w =
     (if \<not> online w then (\<lparr>synced = 0, errors = 0\<rparr>, w)
      else (case process_items srv (pendingItems w) (w, \<lparr>synced = 0, errors = 0\<rparr>) of
              (w', r) \<Rightarrow> (r, w')))"

section \<open>Sequences of enqueue operations\<close>

text \<open>
  A sequence of \<open>addToOutbox\<close> calls, each with its two clock readings and its argument,
  run one after the other.
\<close>

primrec enqueue_all :: "(nat \<times> nat \<times> new_item) list \<Rightarrow> world \<Rightarrow> world" where
  "enqueue_all [] w = w"
| "enqueue_all (e # es) w =
     enqueue_all es (snd (addToOutbox (fst e) (fst (snd e)) (snd (snd e)) w))"

text \<open>
  A call that succeeds: \<open>fetch\<close> returns a response whose \<open>ok\<close> is true, and what the
  client reads of the body is there. For a \<open>DELETE\<close> the body is never read, so a
  response without one (status 204) will do; for a \<open>PUT\<close> the body must parse, since
  \<open>response.json()\<close> is awaited; for a \<open>POST\<close> it must parse to a value other than
  \<open>null\<close>, since \<open>result.id\<close> is read.
\<close>

definition call_succeeds :: "request \<Rightarrow> fetch_result \<Rightarrow> bool" where
  "call_succeeds rq res =
     (case res of
        FetchThrows e \<Rightarrow> False
      | Responded response \<Rightarrow>
          resp_ok response \<and>
          (case req_method rq of
             DELETE \<Rightarrow> True
           | PUT \<Rightarrow> (case resp_json response of JsonThrows e \<Rightarrow> False | _ \<Rightarrow> True)
           | POST \<Rightarrow> (case resp_json response of JsonValue v \<Rightarrow> True | _ \<Rightarrow> False)))"

text \<open>A server whose every call succeeds, whatever was sent before.\<close>

definition always_succeeds :: "api \<Rightarrow> bool" where
  "always_succeeds srv = (\<forall>h rq. call_succeeds rq (srv h rq))"

section \<open>Example states\<close>

text \<open>The recipe of the spec's scenarios, queued as a create under a temporary identifier.\<close>

definition pie :: recipe where
  "pie = \<lparr>recipe_id = StrId ''temp_abc'', recipe_rest = [(''title'', ''Pie'')]\<rparr>"

definition pie_item :: outbox_item where
  "pie_item =
     \<lparr>item_id = ''offline_1'', item_type = Create, item_data = pie, item_timestamp = 1,
      item_status = Pending, item_error = None\<rparr>"

text \<open>A logged-in client, online, with the pie cached and queued.\<close>

definition logged_in :: world where
  "logged_in =
     \<lparr>user = Some [(''username'', ''ann'')], token = Some ''jwt'', recipes = Some [pie],
      outbox = Some [pie_item], online = True, calls = []\<rparr>"

text \<open>A server that accepts everything and assigns the identifier 42.\<close>

definition ok_api :: api where
  "ok_api h rq = Responded \<lparr>resp_ok = True, resp_status = 200, resp_json = JsonValue (NumId 42)\<rparr>"

text \<open>
  A server that answers as the repository's routes do when they succeed: a created or
  updated recipe comes back as JSON, a delete is answered with status 204 and no body
  (parsing that body would throw).
\<close>

definition server_api :: api where
  "server_api h rq =
     (case req_method rq of
        POST \<Rightarrow>
          Responded \<lparr>resp_ok = True, resp_status = 201, resp_json = JsonValue (NumId 42)\<rparr>
      | PUT \<Rightarrow>
          Responded \<lparr>resp_ok = True, resp_status = 200,
                     resp_json = JsonValue (case req_url rq of RecipeUrl i \<Rightarrow> i
                                            | RecipesUrl \<Rightarrow> Undefined)\<rparr>
      | DELETE \<Rightarrow>
          Responded \<lparr>resp_ok = True, resp_status = 204,
                     resp_json = JsonThrows (JsError ''Unexpected end of JSON input'')\<rparr>)"

text \<open>A server that answers every request with status 500.\<close>

definition rejecting_api :: api where
  "rejecting_api h rq = Responded \<lparr>resp_ok = False, resp_status = 500, resp_json = JsonNull\<rparr>"

text \<open>A queued delete of the recipe the server knows as 7.\<close>

definition delete_item :: outbox_item where
  "delete_item =
     \<lparr>item_id = ''offline_2'', item_type = Delete,
      item_data = \<lparr>recipe_id = NumId 7, recipe_rest = [(''title'', ''Pie'')]\<rparr>,
      item_timestamp = 2, item_status = Pending, item_error = None\<rparr>"

definition delete_world :: world where
  "delete_world = logged_in\<lparr>outbox := Some [delete_item]\<rparr>"

text \<open>
  Two creates queued within the same millisecond: both get the identifier \<open>offline_1\<close>.
\<close>

definition tart :: recipe where
  "tart = \<lparr>recipe_id = StrId ''temp_xyz'', recipe_rest = [(''title'', ''Tart'')]\<rparr>"

definition tart_item :: outbox_item where
  "tart_item =
     \<lparr>item_id = ''offline_1'', item_type = Create, item_data = tart, item_timestamp = 1,
      item_status = Pending, item_error = None\<rparr>"

definition twins :: world where
  "twins =
     enqueue_all
       [(1, 1, \<lparr>new_type = Create, new_data = pie, new_error = None\<rparr>),
        (1, 1, \<lparr>new_type = Create, new_data = tart, new_error = None\<rparr>)]
       (logged_in\<lparr>outbox := None\<rparr>)"

text \<open>An item left in status \<open>error\<close> by an earlier pass, ahead of the queued pie.\<close>

definition stuck_item :: outbox_item where
  "stuck_item =
     \<lparr>item_id = ''offline_0'', item_type = Update,
      item_data = \<lparr>recipe_id = NumId 3, recipe_rest = [(''title'', ''Scones'')]\<rparr>,
      item_timestamp = 0, item_status = Error, item_error = Some ''Server returned 500''\<rparr>"

definition mixed_world :: world where
  "mixed_world = logged_in\<lparr>outbox := Some [stuck_item, pie_item]\<rparr>"

text \<open>A client whose token is gone, with a create and a delete queued.\<close>

definition no_token_world :: world where
  "no_token_world = logged_in\<lparr>token := None, outbox := Some [pie_item, delete_item]\<rparr>"

section \<open>Facts about the outbox operations\<close>

lemma findIndex_None_iff: "findIndex p xs = None \<longleftrightarrow> (\<forall>x\<in>set xs. \<not> p x)"
  by (induction xs) auto

lemma findIndex_SomeD:
  "findIndex p xs = Some k \<Longrightarrow> k < length xs \<and> p (xs ! k) \<and> (\<forall>j<k. \<not> p (xs ! j))"
proof (induction xs arbitrary: k)
  case Nil
  then show ?case by simp
next
  case (Cons x xs)
  show ?case
  proof (cases "p x")
    case True
    with Cons.prems show ?thesis by simp
  next
    case False
    with Cons.prems obtain k' where k': "findIndex p xs = Some k'" "k = Suc k'"
      by auto
    from Cons.IH [OF k'(1)] False k'(2) show ?thesis
      by (auto simp: nth_Cons less_Suc_eq_0_disj split: nat.splits)
  qed
qed

subsection \<open>List facts behind the outbox updates\<close>

lemma filter_list_update_out:
  "k < length xs \<Longrightarrow> \<not> P (xs ! k) \<Longrightarrow> \<not> P v \<Longrightarrow> filter P (xs[k := v]) = filter P xs"
proof (induction xs arbitrary: k)
  case Nil
  then show ?case by simp
next
  case (Cons x xs)
  then show ?case by (cases k) auto
qed

lemma list_update_distinct_key:
  assumes "distinct (map f xs)" and "k < length xs"
  shows "xs[k := g (xs ! k)] = map (\<lambda>x. if f x = f (xs ! k) then g x else x) xs"
proof (rule nth_equalityI)
  show "length (xs[k := g (xs ! k)]) = length (map (\<lambda>x. if f x = f (xs ! k) then g x else x) xs)"
    by simp
next
  fix j assume "j < length (xs[k := g (xs ! k)])"
  then have j: "j < length xs" by simp
  show "xs[k := g (xs ! k)] ! j = map (\<lambda>x. if f x = f (xs ! k) then g x else x) xs ! j"
  proof (cases "j = k")
    case True
    with j show ?thesis by simp
  next
    case False
    from assms j have "(map f xs ! j = map f xs ! k) = (j = k)"
      by (simp add: nth_eq_iff_index_eq del: nth_map)
    with False j assms(2) have "f (xs ! j) \<noteq> f (xs ! k)" by simp
    with False j show ?thesis by simp
  qed
qed

subsection \<open>updateOutboxItem\<close>

lemma updateOutboxItem_frame [simp]:
  "token (snd (updateOutboxItem i u w)) = token w"
  "online (snd (updateOutboxItem i u w)) = online w"
  "calls (snd (updateOutboxItem i u w)) = calls w"
  "recipes (snd (updateOutboxItem i u w)) = recipes w"
  "user (snd (updateOutboxItem i u w)) = user w"
  by (simp_all add: updateOutboxItem_def Let_def split: option.splits)

lemma getOutbox_updateOutboxItem:
  "getOutbox (snd (updateOutboxItem i u w)) =
     (case findIndex (\<lambda>item. item_id item = i) (getOutbox w) of
        None \<Rightarrow> getOutbox w
      | Some k \<Rightarrow> (getOutbox w)[k := merge_updates (getOutbox w ! k) u])"
  by (simp add: updateOutboxItem_def Let_def getOutbox_def split: option.splits)

lemma merge_updates_id [simp]:
  "upd_id u = None \<Longrightarrow> item_id (merge_updates x u) = item_id x"
  by (simp add: merge_updates_def)

lemma upd_id_sync [simp]: "upd_id syncing_update = None" "upd_id (error_update m) = None"
  by (simp_all add: syncing_update_def error_update_def)

lemma merge_error_after_syncing [simp]:
  "merge_updates (merge_updates x syncing_update) (error_update m)
     = x\<lparr>item_status := Error, item_error := Some m\<rparr>"
  by (simp add: merge_updates_def syncing_update_def error_update_def)

lemma merge_error_update [simp]:
  "merge_updates x (error_update m) = x\<lparr>item_status := Error, item_error := Some m\<rparr>"
  by (simp add: merge_updates_def error_update_def)

lemma merge_syncing_update [simp]:
  "merge_updates x syncing_update = x\<lparr>item_status := Syncing\<rparr>"
  by (simp add: merge_updates_def syncing_update_def)

text \<open>An update that keeps the identifier changes nothing outside that identifier.\<close>

lemma updateOutboxItem_filter:
  assumes "upd_id u = None" and "i \<in> Q"
  shows "filter (\<lambda>x. item_id x \<notin> Q) (getOutbox (snd (updateOutboxItem i u w)))
           = filter (\<lambda>x. item_id x \<notin> Q) (getOutbox w)"
proof (cases "findIndex (\<lambda>item. item_id item = i) (getOutbox w)")
  case None
  then show ?thesis by (simp add: getOutbox_updateOutboxItem)
next
  case (Some k)
  from findIndex_SomeD [OF Some] assms show ?thesis
    by (simp add: getOutbox_updateOutboxItem Some filter_list_update_out)
qed

lemma updateOutboxItem_ids:
  assumes "upd_id u = None"
  shows "map item_id (getOutbox (snd (updateOutboxItem i u w))) = map item_id (getOutbox w)"
proof (cases "findIndex (\<lambda>item. item_id item = i) (getOutbox w)")
  case None
  then show ?thesis by (simp add: getOutbox_updateOutboxItem)
next
  case (Some k)
  from findIndex_SomeD [OF Some] assms show ?thesis
    by (simp add: getOutbox_updateOutboxItem Some map_update list_update_same_conv)
qed

lemma updateOutboxItem_distinct:
  assumes "distinct (map item_id (getOutbox w))" and "upd_id u = None"
  shows "getOutbox (snd (updateOutboxItem i u w))
           = map (\<lambda>x. if item_id x = i then merge_updates x u else x) (getOutbox w)"
proof (cases "findIndex (\<lambda>item. item_id item = i) (getOutbox w)")
  case None
  then have "\<forall>x\<in>set (getOutbox w). item_id x \<noteq> i" by (simp add: findIndex_None_iff)
  then have "map (\<lambda>x. if item_id x = i then merge_updates x u else x) (getOutbox w) = getOutbox w"
    by (simp add: map_idI)
  with None show ?thesis by (simp add: getOutbox_updateOutboxItem)
next
  case (Some k)
  from findIndex_SomeD [OF Some] have k: "k < length (getOutbox w)" "item_id (getOutbox w ! k) = i"
    by simp_all
  from list_update_distinct_key [OF assms(1) k(1), of "\<lambda>x. merge_updates x u"] k(2) Some
  show ?thesis by (simp add: getOutbox_updateOutboxItem)
qed


subsection \<open>The switch and the try block\<close>

lemma send_recipe_frame [simp]:
  "outbox (snd (send_recipe srv tok it w)) = outbox w"
  "token (snd (send_recipe srv tok it w)) = token w"
  "online (snd (send_recipe srv tok it w)) = online w"
  "user (snd (send_recipe srv tok it w)) = user w"
  by (simp_all add: send_recipe_def fetch_def remap_local_id_def saveRecipes_def Let_def
      split: fetch_result.splits json_result.splits option.splits)

lemma send_delete_frame [simp]:
  "outbox (snd (send_delete srv tok it w)) = outbox w"
  "token (snd (send_delete srv tok it w)) = token w"
  "online (snd (send_delete srv tok it w)) = online w"
  "user (snd (send_delete srv tok it w)) = user w"
  "recipes (snd (send_delete srv tok it w)) = recipes w"
  by (simp_all add: send_delete_def fetch_def split: fetch_result.splits)

lemma getOutbox_removeFromOutbox [simp]:
  "getOutbox (removeFromOutbox i w) = filter (\<lambda>item. item_id item \<noteq> i) (getOutbox w)"
  by (simp add: removeFromOutbox_def getOutbox_def)

lemma removeFromOutbox_frame [simp]:
  "token (removeFromOutbox i w) = token w"
  "online (removeFromOutbox i w) = online w"
  "calls (removeFromOutbox i w) = calls w"
  "recipes (removeFromOutbox i w) = recipes w"
  "user (removeFromOutbox i w) = user w"
  by (simp_all add: removeFromOutbox_def)

lemma dispatch_frame [simp]:
  "outbox (snd (dispatch srv tok it w)) = outbox w"
  "token (snd (dispatch srv tok it w)) = token w"
  "online (snd (dispatch srv tok it w)) = online w"
  "user (snd (dispatch srv tok it w)) = user w"
  by (cases "item_type it"; simp add: dispatch_def)+

lemma sync_item_no_token:
  "token w = None \<or> token w = Some [] \<Longrightarrow>
   sync_item srv it w =
     (Threw (JsError no_token_message), snd (updateOutboxItem (item_id it) syncing_update w))"
  by (auto simp: sync_item_def getToken_def Let_def)

lemma sync_item_token:
  "token w = Some tok \<Longrightarrow> tok \<noteq> [] \<Longrightarrow>
   sync_item srv it w =
     (case dispatch srv tok it (snd (updateOutboxItem (item_id it) syncing_update w)) of
        (Threw e, w2) \<Rightarrow> (Threw e, w2)
      | (Completed, w2) \<Rightarrow> (Completed, removeFromOutbox (item_id it) w2))"
  by (simp add: sync_item_def getToken_def Let_def)

lemma sync_item_frame [simp]:
  "token (snd (sync_item srv it w)) = token w"
  "online (snd (sync_item srv it w)) = online w"
  "user (snd (sync_item srv it w)) = user w"
proof -
  let ?w1 = "snd (updateOutboxItem (item_id it) syncing_update w)"
  have "token (snd (sync_item srv it w)) = token w
      \<and> online (snd (sync_item srv it w)) = online w
      \<and> user (snd (sync_item srv it w)) = user w"
  proof (cases "token w = None \<or> token w = Some []")
    case True
    then show ?thesis by (simp add: sync_item_no_token)
  next
    case False
    then obtain tok where tok: "token w = Some tok" "tok \<noteq> []" by auto
    obtain c w2 where d: "dispatch srv tok it ?w1 = (c, w2)" by (cases "dispatch srv tok it ?w1")
    have "token w2 = token w \<and> online w2 = online w \<and> user w2 = user w"
      using dispatch_frame [of srv tok it ?w1] d by simp
    then show ?thesis
      by (cases c) (simp_all add: sync_item_token [OF tok] d)
  qed
  then show "token (snd (sync_item srv it w)) = token w"
    "online (snd (sync_item srv it w)) = online w"
    "user (snd (sync_item srv it w)) = user w" by simp_all
qed

text \<open>The outbox after the try block.\<close>

lemma sync_item_outbox_completed:
  assumes "fst (sync_item srv it w) = Completed"
  shows "getOutbox (snd (sync_item srv it w)) =
           filter (\<lambda>x. item_id x \<noteq> item_id it)
             (getOutbox (snd (updateOutboxItem (item_id it) syncing_update w)))"
proof -
  let ?w1 = "snd (updateOutboxItem (item_id it) syncing_update w)"
  have "\<not> (token w = None \<or> token w = Some [])"
  proof
    assume "token w = None \<or> token w = Some []"
    from sync_item_no_token [OF this, of srv it] assms show False by simp
  qed
  then obtain tok where tok: "token w = Some tok" "tok \<noteq> []" by auto
  obtain c w2 where d: "dispatch srv tok it ?w1 = (c, w2)" by (cases "dispatch srv tok it ?w1")
  have ob: "getOutbox w2 = getOutbox ?w1"
    using dispatch_frame(1) [of srv tok it ?w1] d by (simp add: getOutbox_def)
  from assms show ?thesis
    by (cases c) (simp_all add: sync_item_token [OF tok] d ob)
qed

lemma sync_item_outbox_threw:
  assumes "fst (sync_item srv it w) = Threw e"
  shows "getOutbox (snd (sync_item srv it w)) =
           getOutbox (snd (updateOutboxItem (item_id it) syncing_update w))"
proof -
  let ?w1 = "snd (updateOutboxItem (item_id it) syncing_update w)"
  show ?thesis
  proof (cases "token w = None \<or> token w = Some []")
    case True
    then show ?thesis by (simp add: sync_item_no_token)
  next
    case False
    then obtain tok where tok: "token w = Some tok" "tok \<noteq> []" by auto
    obtain c w2 where d: "dispatch srv tok it ?w1 = (c, w2)" by (cases "dispatch srv tok it ?w1")
    have ob: "getOutbox w2 = getOutbox ?w1"
      using dispatch_frame(1) [of srv tok it ?w1] d by (simp add: getOutbox_def)
    from assms show ?thesis
      by (cases c) (simp_all add: sync_item_token [OF tok] d ob)
  qed
qed

subsection \<open>One iteration\<close>

lemma process_item_completed:
  "fst (sync_item srv it w) = Completed \<Longrightarrow>
   process_item srv it (w, r) = (snd (sync_item srv it w), r\<lparr>synced := synced r + 1\<rparr>)"
  by (cases "sync_item srv it w") (simp add: process_item_def)

lemma process_item_threw:
  "fst (sync_item srv it w) = Threw e \<Longrightarrow>
   process_item srv it (w, r) =
     (snd (updateOutboxItem (item_id it) (error_update (error_message e)) (snd (sync_item srv it w))),
      r\<lparr>errors := errors r + 1\<rparr>)"
  by (cases "sync_item srv it w") (simp add: process_item_def)

lemma process_item_frame [simp]:
  "token (fst (process_item srv it s)) = token (fst s)"
  "online (fst (process_item srv it s)) = online (fst s)"
  "user (fst (process_item srv it s)) = user (fst s)"
proof -
  obtain w r where s: "s = (w, r)" by (cases s)
  have "token (fst (process_item srv it s)) = token (fst s)
      \<and> online (fst (process_item srv it s)) = online (fst s)
      \<and> user (fst (process_item srv it s)) = user (fst s)"
    by (cases "fst (sync_item srv it w)")
      (simp_all add: s process_item_completed process_item_threw)
  then show "token (fst (process_item srv it s)) = token (fst s)"
    "online (fst (process_item srv it s)) = online (fst s)"
    "user (fst (process_item srv it s)) = user (fst s)" by simp_all
qed

lemma process_item_filter:
  assumes "item_id it \<in> Q"
  shows "filter (\<lambda>x. item_id x \<notin> Q) (getOutbox (fst (process_item srv it s)))
           = filter (\<lambda>x. item_id x \<notin> Q) (getOutbox (fst s))"
proof -
  obtain w r where s: "s = (w, r)" by (cases s)
  have Q: "\<And>x. (item_id x \<noteq> item_id it \<and> item_id x \<notin> Q) = (item_id x \<notin> Q)"
    using assms by auto
  show ?thesis
  proof (cases "fst (sync_item srv it w)")
    case Completed
    then show ?thesis
      by (simp add: s process_item_completed sync_item_outbox_completed Q
          updateOutboxItem_filter [OF _ assms])
  next
    case (Threw e)
    then show ?thesis
      by (simp add: s process_item_threw updateOutboxItem_filter [OF _ assms]
          sync_item_outbox_threw)
  qed
qed

lemma process_item_ids:
  "\<exists>P. map item_id (getOutbox (fst (process_item srv it s)))
         = filter P (map item_id (getOutbox (fst s)))"
proof -
  obtain w r where s: "s = (w, r)" by (cases s)
  show ?thesis
  proof (cases "fst (sync_item srv it w)")
    case Completed
    have "map item_id (filter (\<lambda>x. item_id x \<noteq> item_id it) ob)
        = filter (\<lambda>i. i \<noteq> item_id it) (map item_id ob)" for ob :: "outbox_item list"
      by (simp add: filter_map o_def)
    with Completed have "map item_id (getOutbox (fst (process_item srv it s)))
        = filter (\<lambda>i. i \<noteq> item_id it) (map item_id (getOutbox w))"
      by (simp add: s process_item_completed sync_item_outbox_completed updateOutboxItem_ids)
    then show ?thesis by (auto simp: s)
  next
    case (Threw e)
    then have "map item_id (getOutbox (fst (process_item srv it s)))
        = filter (\<lambda>i. True) (map item_id (getOutbox w))"
      using updateOutboxItem_ids [of "error_update (error_message e)" "item_id it" "snd (sync_item srv it w)"]
      by (simp add: s process_item_threw sync_item_outbox_threw updateOutboxItem_ids)
    then show ?thesis by (auto simp: s simp del: filter_True)
  qed
qed

subsection \<open>The loop\<close>

lemma process_items_append:
  "process_items srv (xs @ ys) s = process_items srv ys (process_items srv xs s)"
  by (induction xs arbitrary: s) simp_all

lemma process_items_frame [simp]:
  "token (fst (process_items srv ps s)) = token (fst s)"
  "online (fst (process_items srv ps s)) = online (fst s)"
  "user (fst (process_items srv ps s)) = user (fst s)"
  by (induction ps arbitrary: s) simp_all

lemma process_items_filter:
  "\<forall>it\<in>set ps. item_id it \<in> Q \<Longrightarrow>
   filter (\<lambda>x. item_id x \<notin> Q) (getOutbox (fst (process_items srv ps s)))
     = filter (\<lambda>x. item_id x \<notin> Q) (getOutbox (fst s))"
  by (induction ps arbitrary: s) (simp_all add: process_item_filter)

lemma process_items_ids:
  "\<exists>P. map item_id (getOutbox (fst (process_items srv ps s)))
         = filter P (map item_id (getOutbox (fst s)))"
proof (induction ps arbitrary: s)
  case Nil
  have "map item_id (getOutbox (fst s)) = filter (\<lambda>i. True) (map item_id (getOutbox (fst s)))"
    by simp
  then show ?case by (auto simp del: filter_True)
next
  case (Cons it ps)
  from Cons.IH [of "process_item srv it s"] obtain P where
    P: "map item_id (getOutbox (fst (process_items srv ps (process_item srv it s))))
          = filter P (map item_id (getOutbox (fst (process_item srv it s))))" by blast
  from process_item_ids [of srv it s] obtain P' where
    P': "map item_id (getOutbox (fst (process_item srv it s)))
          = filter P' (map item_id (getOutbox (fst s)))" by blast
  have "map item_id (getOutbox (fst (process_items srv (it # ps) s)))
          = filter (\<lambda>i. P' i \<and> P i) (map item_id (getOutbox (fst s)))"
    by (simp add: P P')
  then show ?case by blast
qed

lemma process_items_distinct:
  assumes "distinct (map item_id (getOutbox (fst s)))"
  shows "distinct (map item_id (getOutbox (fst (process_items srv ps s))))"
proof -
  from process_items_ids [of srv ps s] obtain P where
    "map item_id (getOutbox (fst (process_items srv ps s)))
       = filter P (map item_id (getOutbox (fst s)))" by blast
  with assms show ?thesis by simp
qed

lemma process_items_no_new_ids:
  assumes "i \<notin> item_id ` set (getOutbox (fst s))"
  shows "i \<notin> item_id ` set (getOutbox (fst (process_items srv ps s)))"
proof -
  from process_items_ids [of srv ps s] obtain P where
    "map item_id (getOutbox (fst (process_items srv ps s)))
       = filter P (map item_id (getOutbox (fst s)))" by blast
  then have "set (map item_id (getOutbox (fst (process_items srv ps s))))
       \<subseteq> set (map item_id (getOutbox (fst s)))" by simp
  with assms show ?thesis by auto
qed

lemma process_items_keeps:
  assumes "x \<in> set (getOutbox (fst s))" and "item_id x \<notin> item_id ` set ps"
  shows "x \<in> set (getOutbox (fst (process_items srv ps s)))"
proof -
  have "filter (\<lambda>x. item_id x \<notin> item_id ` set ps) (getOutbox (fst (process_items srv ps s)))
          = filter (\<lambda>x. item_id x \<notin> item_id ` set ps) (getOutbox (fst s))"
    by (rule process_items_filter) simp
  moreover from assms
  have "x \<in> set (filter (\<lambda>x. item_id x \<notin> item_id ` set ps) (getOutbox (fst s)))" by simp
  ultimately
  have "x \<in> set (filter (\<lambda>x. item_id x \<notin> item_id ` set ps)
                  (getOutbox (fst (process_items srv ps s))))" by simp
  then show ?thesis by simp
qed

text \<open>The items a pass works on, and the pass as the loop over them.\<close>

lemma processOutbox_online:
  "online w \<Longrightarrow>
   processOutbox srv w =
     (snd (process_items srv (pendingItems w) (w, \<lparr>synced = 0, errors = 0\<rparr>)),
      fst (process_items srv (pendingItems w) (w, \<lparr>synced = 0, errors = 0\<rparr>)))"
  by (simp add: processOutbox_def split: prod.splits)

lemma processOutbox_frame [simp]:
  "token (snd (processOutbox srv w)) = token w"
  "online (snd (processOutbox srv w)) = online w"
proof -
  have "token (snd (processOutbox srv w)) = token w \<and> online (snd (processOutbox srv w)) = online w"
  proof (cases "online w")
    case True
    then show ?thesis by (simp add: processOutbox_online)
  next
    case False
    then show ?thesis by (simp add: processOutbox_def)
  qed
  then show "token (snd (processOutbox srv w)) = token w"
    "online (snd (processOutbox srv w)) = online w" by simp_all
qed

lemma processOutbox_distinct:
  "distinct (map item_id (getOutbox w)) \<Longrightarrow>
   distinct (map item_id (getOutbox (snd (processOutbox srv w))))"
proof (cases "online w")
  case True
  assume "distinct (map item_id (getOutbox w))"
  with True show ?thesis by (simp add: processOutbox_online process_items_distinct)
next
  case False
  assume "distinct (map item_id (getOutbox w))"
  with False show ?thesis by (simp add: processOutbox_def)
qed

lemma pending_ids_distinct:
  assumes "distinct (map item_id (getOutbox w))" and "x \<in> set (getOutbox w)"
  shows "(item_id x \<in> item_id ` set (pendingItems w)) = (item_status x = Pending)"
proof
  assume "item_id x \<in> item_id ` set (pendingItems w)"
  then obtain y where y: "y \<in> set (getOutbox w)" "item_status y = Pending" "item_id y = item_id x"
    by (auto simp: pendingItems_def)
  from assms y(1,3) have "x = y"
    by (metis distinct_map inj_on_def)
  with y(2) show "item_status x = Pending" by simp
next
  assume "item_status x = Pending"
  with assms(2) show "item_id x \<in> item_id ` set (pendingItems w)"
    by (auto simp: pendingItems_def)
qed

subsection \<open>Requests sent\<close>

lemma dispatch_calls:
  "calls (snd (dispatch srv tok it w)) =
     calls w @ [if item_type it = Delete then delete_request tok it else recipe_request tok it]"
  by (cases "item_type it")
    (simp_all add: dispatch_def send_recipe_def send_delete_def fetch_def remap_local_id_def
      saveRecipes_def Let_def split: fetch_result.splits json_result.splits option.splits)

lemma dispatch_delete:
  assumes "item_type it = Delete" and "srv (calls w) (delete_request tok it) = Responded resp"
  shows "fst (dispatch srv tok it w) = Completed"
  using assms by (simp add: dispatch_def send_delete_def fetch_def)

lemma sync_item_completed_removed:
  assumes "fst (sync_item srv it w) = Completed"
  shows "item_id it \<notin> item_id ` set (getOutbox (snd (sync_item srv it w)))"
  using assms by (auto simp: sync_item_outbox_completed)

lemma sync_item_calls:
  "calls (snd (sync_item srv it w)) = calls w
   \<or> (\<exists>tok. calls (snd (sync_item srv it w)) =
         calls w @ [if item_type it = Delete then delete_request tok it else recipe_request tok it])"
proof (cases "token w = None \<or> token w = Some []")
  case True
  then show ?thesis by (simp add: sync_item_no_token)
next
  case False
  then obtain tok where tok: "token w = Some tok" "tok \<noteq> []" by auto
  let ?w1 = "snd (updateOutboxItem (item_id it) syncing_update w)"
  obtain c w2 where d: "dispatch srv tok it ?w1 = (c, w2)" by (cases "dispatch srv tok it ?w1")
  from dispatch_calls [of srv tok it ?w1] d
  have "calls w2 =
      calls w @ [if item_type it = Delete then delete_request tok it else recipe_request tok it]"
    by simp
  then have "calls (snd (sync_item srv it w)) =
      calls w @ [if item_type it = Delete then delete_request tok it else recipe_request tok it]"
    by (cases c) (simp_all add: sync_item_token [OF tok] d)
  then show ?thesis by blast
qed

lemma process_item_calls:
  "calls (fst (process_item srv it s)) = calls (fst s)
   \<or> (\<exists>tok. calls (fst (process_item srv it s)) =
         calls (fst s) @ [if item_type it = Delete then delete_request tok it
                          else recipe_request tok it])"
proof -
  obtain w r where s: "s = (w, r)" by (cases s)
  have "calls (fst (process_item srv it s)) = calls (snd (sync_item srv it w))"
    by (cases "fst (sync_item srv it w)")
      (simp_all add: s process_item_completed process_item_threw)
  with sync_item_calls [of srv it w] show ?thesis by (simp add: s)
qed

lemma process_items_calls:
  "\<exists>new. calls (fst (process_items srv ps s)) = calls (fst s) @ new
        \<and> (\<forall>rq\<in>set new. \<exists>it\<in>set ps.
              rq = (if item_type it = Delete then delete_request (req_bearer rq) it
                    else recipe_request (req_bearer rq) it))"
proof (induction ps arbitrary: s)
  case Nil
  show ?case by simp
next
  case (Cons it ps)
  from Cons.IH [of "process_item srv it s"] obtain new where
    new: "calls (fst (process_items srv ps (process_item srv it s)))
            = calls (fst (process_item srv it s)) @ new"
      "\<forall>rq\<in>set new. \<exists>it\<in>set ps.
              rq = (if item_type it = Delete then delete_request (req_bearer rq) it
                    else recipe_request (req_bearer rq) it)" by blast
  have "\<exists>one. calls (fst (process_item srv it s)) = calls (fst s) @ one
        \<and> (\<forall>rq\<in>set one. rq = (if item_type it = Delete then delete_request (req_bearer rq) it
                    else recipe_request (req_bearer rq) it))"
  proof -
    from process_item_calls [of srv it s] consider
      "calls (fst (process_item srv it s)) = calls (fst s)"
      | tok where "calls (fst (process_item srv it s)) =
         calls (fst s) @ [if item_type it = Delete then delete_request tok it
                          else recipe_request tok it]" by blast
    then show ?thesis
    proof cases
      case 1
      then show ?thesis by (intro exI [of _ "[]"]) simp
    next
      case 2
      then show ?thesis
        by (intro exI [of _ "[if item_type it = Delete then delete_request tok it
                          else recipe_request tok it]"])
          (simp add: delete_request_def recipe_request_def Let_def)
    qed
  qed
  then obtain one where
    one: "calls (fst (process_item srv it s)) = calls (fst s) @ one"
      "\<forall>rq\<in>set one. rq = (if item_type it = Delete then delete_request (req_bearer rq) it
                    else recipe_request (req_bearer rq) it)" by blast
  show ?case
  proof (intro exI [of _ "one @ new"] conjI ballI)
    show "calls (fst (process_items srv (it # ps) s)) = calls (fst s) @ one @ new"
      by (simp add: new(1) one(1))
  next
    fix rq assume "rq \<in> set (one @ new)"
    then consider "rq \<in> set one" | "rq \<in> set new" by auto
    then show "\<exists>it\<in>set (it # ps).
              rq = (if item_type it = Delete then delete_request (req_bearer rq) it
                    else recipe_request (req_bearer rq) it)"
    proof cases
      case 1
      with one(2) show ?thesis by simp
    next
      case 2
      with new(2) show ?thesis by auto
    qed
  qed
qed

subsection \<open>Failed iterations in an outbox with distinct identifiers\<close>

lemma process_item_threw_distinct:
  assumes "distinct (map item_id (getOutbox w))" and "fst (sync_item srv it w) = Threw e"
  shows "getOutbox (fst (process_item srv it (w, r)))
           = map (\<lambda>x. if item_id x = item_id it
                       then x\<lparr>item_status := Error, item_error := Some (error_message e)\<rparr>
                       else x) (getOutbox w)"
proof -
  let ?i = "item_id it"
  let ?w1 = "snd (updateOutboxItem ?i syncing_update w)"
  let ?w' = "snd (sync_item srv it w)"
  have ob1: "getOutbox ?w1 = map (\<lambda>x. if item_id x = ?i then merge_updates x syncing_update else x)
                               (getOutbox w)"
    using assms(1) by (rule updateOutboxItem_distinct) simp
  have ob': "getOutbox ?w' = getOutbox ?w1"
    using assms(2) by (rule sync_item_outbox_threw)
  have "map item_id (getOutbox ?w') = map item_id (getOutbox w)"
    by (simp add: ob' updateOutboxItem_ids)
  with assms(1) have d': "distinct (map item_id (getOutbox ?w'))" by simp
  have "getOutbox (snd (updateOutboxItem ?i (error_update (error_message e)) ?w'))
          = map (\<lambda>x. if item_id x = ?i then merge_updates x (error_update (error_message e)) else x)
              (getOutbox ?w')"
    using d' by (rule updateOutboxItem_distinct) simp
  also have "\<dots> = map (\<lambda>x. if item_id x = ?i
                       then x\<lparr>item_status := Error, item_error := Some (error_message e)\<rparr>
                       else x) (getOutbox w)"
    by (simp add: ob' ob1 o_def) 
  finally show ?thesis by (simp add: process_item_threw [OF assms(2)])
qed

lemma process_items_no_token:
  assumes "token (fst s) = None \<or> token (fst s) = Some []"
    and "distinct (map item_id (getOutbox (fst s)))"
  shows "getOutbox (fst (process_items srv ps s))
           = map (\<lambda>x. if item_id x \<in> item_id ` set ps
                       then x\<lparr>item_status := Error, item_error := Some no_token_message\<rparr>
                       else x) (getOutbox (fst s))
       \<and> snd (process_items srv ps s) = (snd s)\<lparr>errors := errors (snd s) + length ps\<rparr>
       \<and> calls (fst (process_items srv ps s)) = calls (fst s)"
  using assms
proof (induction ps arbitrary: s)
  case Nil
  then show ?case by simp
next
  case (Cons it ps)
  obtain w r where s: "s = (w, r)" by (cases s)
  let ?w1 = "snd (updateOutboxItem (item_id it) syncing_update w)"
  let ?s' = "process_item srv it s"
  from Cons.prems(1) have nt: "token w = None \<or> token w = Some []" by (simp add: s)
  have thr: "fst (sync_item srv it w) = Threw (JsError no_token_message)"
    and w': "snd (sync_item srv it w) = ?w1"
    by (simp_all add: sync_item_no_token [OF nt])
  have ob: "getOutbox (fst ?s')
      = map (\<lambda>x. if item_id x = item_id it
                  then x\<lparr>item_status := Error, item_error := Some no_token_message\<rparr>
                  else x) (getOutbox w)"
    using process_item_threw_distinct [OF _ thr, of r] Cons.prems(2)
    by (simp add: s error_message_def)
  have r': "snd ?s' = r\<lparr>errors := errors r + 1\<rparr>"
    by (simp add: s process_item_threw [OF thr])
  have c': "calls (fst ?s') = calls w"
    by (simp add: s process_item_threw [OF thr] w')
  have "map item_id (getOutbox (fst ?s')) = map item_id (getOutbox w)"
    by (simp add: ob o_def)
  with Cons.prems(2) have d': "distinct (map item_id (getOutbox (fst ?s')))" by (simp add: s)
  have t': "token (fst ?s') = None \<or> token (fst ?s') = Some []"
    using nt by (simp add: s)
  note IH = Cons.IH [OF t' d']
  have "map (\<lambda>x. if item_id x \<in> item_id ` set ps
                  then x\<lparr>item_status := Error, item_error := Some no_token_message\<rparr>
                  else x) (getOutbox (fst ?s'))
      = map (\<lambda>x. if item_id x \<in> item_id ` set (it # ps)
                  then x\<lparr>item_status := Error, item_error := Some no_token_message\<rparr>
                  else x) (getOutbox w)"
    by (simp add: ob o_def) 
  with IH r' c' show ?case by (simp add: s)
qed

subsection \<open>A pass against a server that always succeeds\<close>

lemma dispatch_succeeds:
  assumes "always_succeeds srv"
  shows "fst (dispatch srv tok it w) = Completed"
proof (cases "item_type it")
  case Create
  from assms have "call_succeeds (recipe_request tok it) (srv (calls w) (recipe_request tok it))"
    by (simp add: always_succeeds_def)
  with Create obtain response v where
    "srv (calls w) (recipe_request tok it) = Responded response"
    "resp_ok response" "resp_json response = JsonValue v"
    by (auto simp: call_succeeds_def recipe_request_def
        split: fetch_result.splits json_result.splits)
  with Create show ?thesis
    by (simp add: dispatch_def send_recipe_def fetch_def)
next
  case Update
  from assms have "call_succeeds (recipe_request tok it) (srv (calls w) (recipe_request tok it))"
    by (simp add: always_succeeds_def)
  with Update obtain response where
    r: "srv (calls w) (recipe_request tok it) = Responded response"
    "resp_ok response" "\<forall>e. resp_json response \<noteq> JsonThrows e"
    by (auto simp: call_succeeds_def recipe_request_def
        split: fetch_result.splits json_result.splits)
  with Update show ?thesis
    by (cases "resp_json response") (simp_all add: dispatch_def send_recipe_def fetch_def)
next
  case Delete
  from assms have "call_succeeds (delete_request tok it) (srv (calls w) (delete_request tok it))"
    by (simp add: always_succeeds_def)
  then obtain response where "srv (calls w) (delete_request tok it) = Responded response"
    by (auto simp: call_succeeds_def split: fetch_result.splits)
  with Delete show ?thesis
    by (simp add: dispatch_def send_delete_def fetch_def)
qed

lemma sync_item_succeeds:
  assumes "token w = Some tok" and "tok \<noteq> []" and "always_succeeds srv"
  shows "fst (sync_item srv it w) = Completed"
proof -
  let ?w1 = "snd (updateOutboxItem (item_id it) syncing_update w)"
  from dispatch_succeeds [OF assms(3), of tok it ?w1] show ?thesis
    by (cases "dispatch srv tok it ?w1") (simp add: sync_item_token [OF assms(1,2)])
qed

lemma process_item_completed_outbox:
  assumes "fst (sync_item srv it w) = Completed"
  shows "getOutbox (fst (process_item srv it (w, r)))
           = filter (\<lambda>x. item_id x \<noteq> item_id it) (getOutbox w)"
proof -
  have "filter (\<lambda>x. item_id x \<notin> {item_id it})
          (getOutbox (snd (updateOutboxItem (item_id it) syncing_update w)))
        = filter (\<lambda>x. item_id x \<notin> {item_id it}) (getOutbox w)"
    by (rule updateOutboxItem_filter) simp_all
  then show ?thesis
    by (simp add: process_item_completed [OF assms] sync_item_outbox_completed [OF assms])
qed

lemma process_items_all_succeed:
  assumes "token (fst s) = Some tok" and "tok \<noteq> []" and "always_succeeds srv"
  shows "getOutbox (fst (process_items srv ps s))
           = filter (\<lambda>x. item_id x \<notin> item_id ` set ps) (getOutbox (fst s))
       \<and> snd (process_items srv ps s) = (snd s)\<lparr>synced := synced (snd s) + length ps\<rparr>"
  using assms(1)
proof (induction ps arbitrary: s)
  case Nil
  then show ?case by simp
next
  case (Cons it ps)
  obtain w r where s: "s = (w, r)" by (cases s)
  let ?s' = "process_item srv it s"
  from Cons.prems have tok: "token w = Some tok" by (simp add: s)
  have c: "fst (sync_item srv it w) = Completed"
    using tok assms(2,3) by (rule sync_item_succeeds)
  have ob: "getOutbox (fst ?s') = filter (\<lambda>x. item_id x \<noteq> item_id it) (getOutbox w)"
    using c by (simp add: s process_item_completed_outbox)
  have r': "snd ?s' = r\<lparr>synced := synced r + 1\<rparr>"
    by (simp add: s process_item_completed [OF c])
  have t': "token (fst ?s') = Some tok" using tok by (simp add: s)
  have "filter (\<lambda>x. item_id x \<notin> item_id ` set ps) (getOutbox (fst ?s'))
          = filter (\<lambda>x. item_id x \<notin> item_id ` set (it # ps)) (getOutbox w)"
    by (simp add: ob conj_commute)
  with Cons.IH [OF t'] r' show ?case by (simp add: s)
qed

subsection \<open>Enqueueing\<close>

lemma addToOutbox_frame [simp]:
  "token (snd (addToOutbox a b it w)) = token w"
  "online (snd (addToOutbox a b it w)) = online w"
  by (simp_all add: addToOutbox_def Let_def)

lemma getOutbox_addToOutbox:
  "\<exists>x. getOutbox (snd (addToOutbox a b it w)) = getOutbox w @ [x] \<and> item_status x = Pending"
  by (simp add: addToOutbox_def Let_def getOutbox_def)

lemma enqueue_all_frame [simp]:
  "token (enqueue_all es w) = token w"
  "online (enqueue_all es w) = online w"
  by (induction es arbitrary: w) simp_all

lemma enqueue_all_outbox:
  "\<exists>new. getOutbox (enqueue_all es w) = getOutbox w @ new
        \<and> length new = length es \<and> (\<forall>x\<in>set new. item_status x = Pending)"
proof (induction es arbitrary: w)
  case Nil
  show ?case by simp
next
  case (Cons e es)
  let ?w1 = "snd (addToOutbox (fst e) (fst (snd e)) (snd (snd e)) w)"
  from getOutbox_addToOutbox [of "fst e" "fst (snd e)" "snd (snd e)" w] obtain x where
    x: "getOutbox ?w1 = getOutbox w @ [x]" "item_status x = Pending" by blast
  from Cons.IH [of ?w1] obtain new where
    new: "getOutbox (enqueue_all es ?w1) = getOutbox ?w1 @ new" "length new = length es"
      "\<forall>x\<in>set new. item_status x = Pending" by blast
  show ?case
    by (intro exI [of _ "x # new"]) (simp add: x new)
qed

subsection \<open>Identifier remapping\<close>

lemma filter_length_list_update:
  "k < length xs \<Longrightarrow> P (xs ! k) \<Longrightarrow> \<not> P v \<Longrightarrow>
   length (filter P (xs[k := v])) = length (filter P xs) - 1"
proof (induction xs arbitrary: k)
  case Nil
  then show ?case by simp
next
  case (Cons x xs)
  show ?case
  proof (cases k)
    case 0
    with Cons.prems show ?thesis by simp
  next
    case (Suc k')
    with Cons.prems have "length (filter P (xs[k' := v])) = length (filter P xs) - 1"
      by (intro Cons.IH) simp_all
    moreover from Suc Cons.prems have "filter P xs \<noteq> []"
      by (auto simp: filter_empty_conv)
    ultimately show ?thesis using Suc by (cases "filter P xs") auto
  qed
qed

lemma getRecipes_saveRecipes [simp]: "getRecipes (saveRecipes rs w) = rs"
  by (simp add: saveRecipes_def getRecipes_def)

lemma remap_local_id_recipes:
  assumes "length (filter (\<lambda>r. recipe_id r = local_id) (getRecipes w)) = 1"
    and "server_id \<noteq> local_id"
  shows "server_id \<in> recipe_id ` set (getRecipes (remap_local_id local_id server_id w))
       \<and> local_id \<notin> recipe_id ` set (getRecipes (remap_local_id local_id server_id w))"
proof -
  let ?rs = "getRecipes w"
  let ?P = "\<lambda>r. recipe_id r = local_id"
  from assms(1) have "filter ?P ?rs \<noteq> []" by auto
  then have "findIndex ?P ?rs \<noteq> None"
    by (auto simp: findIndex_None_iff filter_empty_conv)
  then obtain k where k: "findIndex ?P ?rs = Some k" by auto
  from findIndex_SomeD [OF k] have kl: "k < length ?rs" and kp: "?P (?rs ! k)" by simp_all
  let ?v = "(?rs ! k)\<lparr>recipe_id := server_id\<rparr>"
  have rs': "getRecipes (remap_local_id local_id server_id w) = ?rs[k := ?v]"
    by (simp add: remap_local_id_def Let_def k)
  have "?v \<in> set (?rs[k := ?v])" using kl by (rule set_update_memI)
  then have has: "server_id \<in> recipe_id ` set (?rs[k := ?v])" by force
  have "length (filter ?P (?rs[k := ?v])) = length (filter ?P ?rs) - 1"
    using kl kp assms(2) by (intro filter_length_list_update) simp_all
  with assms(1) have "filter ?P (?rs[k := ?v]) = []" by simp
  then have "local_id \<notin> recipe_id ` set (?rs[k := ?v])"
    by (auto simp: filter_empty_conv)
  with has show ?thesis by (simp add: rs')
qed

lemma dispatch_create_remaps:
  assumes "item_type it = Create"
    and "srv (calls w) (recipe_request tok it) = Responded resp"
    and "resp_ok resp" and "resp_json resp = JsonValue server_id"
    and "server_id \<noteq> recipe_id (item_data it)"
  shows "dispatch srv tok it w =
           (Completed,
            remap_local_id (recipe_id (item_data it)) server_id
              (w\<lparr>calls := calls w @ [recipe_request tok it]\<rparr>))"
  using assms by (simp add: dispatch_def send_recipe_def fetch_def)

lemma getRecipes_frame [simp]:
  "getRecipes (w\<lparr>calls := c\<rparr>) = getRecipes w"
  "getRecipes (removeFromOutbox i w) = getRecipes w"
  "getRecipes (snd (updateOutboxItem i u w)) = getRecipes w"
  by (simp_all add: getRecipes_def)

subsection \<open>Items a pass does not select\<close>

lemma processOutbox_keeps_non_pending:
  assumes "distinct (map item_id (getOutbox w))"
    and "x \<in> set (getOutbox w)" and "item_status x \<noteq> Pending"
  shows "x \<in> set (getOutbox (snd (processOutbox srv w)))"
proof (cases "online w")
  case True
  from pending_ids_distinct [OF assms(1,2)] assms(3)
  have "item_id x \<notin> item_id ` set (pendingItems w)" by simp
  with assms(2)
  have "x \<in> set (getOutbox (fst (process_items srv (pendingItems w)
                 (w, \<lparr>synced = 0, errors = 0\<rparr>))))"
    by (intro process_items_keeps) simp_all
  with True show ?thesis by (simp add: processOutbox_online)
next
  case False
  with assms(2) show ?thesis by (simp add: processOutbox_def)
qed

lemma error_message_nonempty: "e \<noteq> JsError [] \<Longrightarrow> error_message e \<noteq> []"
  by (cases e) (simp_all add: error_message_def)

subsection \<open>How a call that fails ends the try block\<close>

lemma sync_item_fetch_throws:
  assumes "token w = Some tok" and "tok \<noteq> []"
    and "srv (calls w) (if item_type it = Delete then delete_request tok it
                        else recipe_request tok it) = FetchThrows e"
  shows "fst (sync_item srv it w) = Threw e"
proof -
  let ?w1 = "snd (updateOutboxItem (item_id it) syncing_update w)"
  from assms(3) have "fst (dispatch srv tok it ?w1) = Threw e"
    by (cases "item_type it") (simp_all add: dispatch_def send_recipe_def send_delete_def fetch_def)
  then show ?thesis
    by (cases "dispatch srv tok it ?w1") (simp add: sync_item_token [OF assms(1,2)])
qed

lemma sync_item_rejected:
  assumes "token w = Some tok" and "tok \<noteq> []"
    and "item_type it \<noteq> Delete"
    and "srv (calls w) (recipe_request tok it) = Responded resp" and "\<not> resp_ok resp"
  shows "fst (sync_item srv it w)
           = Threw (JsError (''Server returned '' @ show_nat (resp_status resp)))"
proof -
  let ?w1 = "snd (updateOutboxItem (item_id it) syncing_update w)"
  from assms(3,4,5)
  have "fst (dispatch srv tok it ?w1)
          = Threw (JsError (''Server returned '' @ show_nat (resp_status resp)))"
    by (cases "item_type it") (simp_all add: dispatch_def send_recipe_def fetch_def)
  then show ?thesis
    by (cases "dispatch srv tok it ?w1") (simp add: sync_item_token [OF assms(1,2)])
qed

subsection \<open>The counters only grow\<close>

lemma process_item_synced_mono: "synced (snd s) \<le> synced (snd (process_item srv it s))"
proof -
  obtain w r where s: "s = (w, r)" by (cases s)
  show ?thesis
    by (cases "fst (sync_item srv it w)")
      (simp_all add: s process_item_completed process_item_threw)
qed

lemma process_items_synced_mono: "synced (snd s) \<le> synced (snd (process_items srv ps s))"
proof (induction ps arbitrary: s)
  case Nil
  show ?case by simp
next
  case (Cons it ps)
  have "synced (snd s) \<le> synced (snd (process_item srv it s))"
    by (rule process_item_synced_mono)
  also have "\<dots> \<le> synced (snd (process_items srv ps (process_item srv it s)))"
    by (rule Cons.IH)
  finally show ?case by simp
qed

subsection \<open>Running the examples\<close>

lemma show_nat_1 [simp]: "show_nat (Suc 0) = ''1''"
  by (subst show_nat.simps) (simp add: digit_def)

lemma show_nat_500 [simp]: "show_nat 500 = ''500''"
  by (subst show_nat.simps, simp, subst show_nat.simps, simp, subst show_nat.simps)
    (simp add: digit_def)

lemma twins_outbox: "twins = logged_in\<lparr>outbox := Some [pie_item, tart_item]\<rparr>"
  by (simp add: twins_def addToOutbox_def getOutbox_def logged_in_def pie_item_def tart_item_def
      Let_def)

text \<open>The definitions a concrete run unfolds.\<close>

lemmas run_defs =
  processOutbox_def pendingItems_def getOutbox_def process_item_def sync_item_def
  updateOutboxItem_def removeFromOutbox_def dispatch_def send_recipe_def send_delete_def
  fetch_def recipe_request_def delete_request_def remap_local_id_def saveRecipes_def
  getRecipes_def getToken_def merge_updates_def syncing_update_def error_update_def
  error_message_def no_token_message_def Let_def

section \<open>The claims\<close>

text \<open>
  C1. In a pass over an outbox whose identifiers are pairwise distinct, a pending item,
  reached by the loop after the items \<open>pre\<close> before it, whose \<open>try\<close> block throws (no
  token, \<open>fetch\<close> throws, a create or update gets a non-success response, or the body of
  the response cannot be used): its iteration increments \<open>errors\<close>; when the pass
  completes the item is in the outbox with status \<open>error\<close> and the message of what was
  thrown; that message is non-empty unless an \<open>Error\<close> with an empty message was
  thrown, in which case the item is there with status \<open>error\<close> and the empty message. The
  item is not retried: it is not among the pending items of the next pass, and the next
  pass, against any server, leaves it in the outbox as it is.
\<close>

theorem failed_item_stays_as_error:
  assumes "online w"
    and "distinct (map item_id (getOutbox w))"
    and "pendingItems w = pre @ item # post"
    and "process_items srv pre (w, \<lparr>synced = 0, errors = 0\<rparr>) = (w1, r1)"
    and "fst (sync_item srv item w1) = Threw e"
  shows "snd (process_item srv item (w1, r1)) = r1\<lparr>errors := errors r1 + 1\<rparr>
       \<and> item\<lparr>item_status := Error, item_error := Some (error_message e)\<rparr>
            \<in> set (getOutbox (snd (processOutbox srv w)))
       \<and> (e \<noteq> JsError [] \<longrightarrow> error_message e \<noteq> [])
       \<and> item\<lparr>item_status := Error, item_error := Some (error_message e)\<rparr>
            \<notin> set (pendingItems (snd (processOutbox srv w)))
       \<and> item\<lparr>item_status := Error, item_error := Some (error_message e)\<rparr>
            \<in> set (getOutbox (snd (processOutbox srv2 (snd (processOutbox srv w)))))"
proof -
  let ?item' = "item\<lparr>item_status := Error, item_error := Some (error_message e)\<rparr>"
  let ?s0 = "(w, \<lparr>synced = 0, errors = 0\<rparr>)"
  let ?s2 = "process_item srv item (w1, r1)"
  let ?w' = "snd (processOutbox srv w)"
  have w1: "w1 = fst (process_items srv pre ?s0)" using assms(4) by simp
  have "distinct (map item_id (pendingItems w))"
    using assms(2) unfolding pendingItems_def by (rule distinct_map_filter)
  then have dp: "distinct (map item_id (pre @ item # post))" by (simp add: assms(3))
  then have not_pre: "item_id item \<notin> item_id ` set pre"
    and not_post: "item_id item \<notin> item_id ` set post" by auto
  have "item \<in> set (pendingItems w)" by (simp add: assms(3))
  then have "item \<in> set (getOutbox (fst ?s0))" by (simp add: pendingItems_def)
  then have in1: "item \<in> set (getOutbox w1)"
    unfolding w1 using not_pre by (rule process_items_keeps)
  have d1: "distinct (map item_id (getOutbox w1))"
    unfolding w1 using assms(2) by (intro process_items_distinct) simp
  have ob2: "getOutbox (fst ?s2)
      = map (\<lambda>x. if item_id x = item_id item
                  then x\<lparr>item_status := Error, item_error := Some (error_message e)\<rparr>
                  else x) (getOutbox w1)"
    using d1 assms(5) by (rule process_item_threw_distinct)
  from in1 have "?item' \<in> set (getOutbox (fst ?s2))"
    unfolding ob2 by force
  moreover have "item_id ?item' \<notin> item_id ` set post" using not_post by simp
  ultimately have "?item' \<in> set (getOutbox (fst (process_items srv post ?s2)))"
    by (rule process_items_keeps)
  moreover have pass: "processOutbox srv w =
      (snd (process_items srv post ?s2), fst (process_items srv post ?s2))"
    using assms(1,3,4) by (simp add: processOutbox_online process_items_append)
  ultimately have present: "?item' \<in> set (getOutbox ?w')" by simp
  have counted: "snd ?s2 = r1\<lparr>errors := errors r1 + 1\<rparr>"
    by (simp add: process_item_threw [OF assms(5)])
  have not_pending: "?item' \<notin> set (pendingItems ?w')" by (simp add: pendingItems_def)
  have "distinct (map item_id (getOutbox ?w'))"
    using assms(2) by (rule processOutbox_distinct)
  then have "?item' \<in> set (getOutbox (snd (processOutbox srv2 ?w')))"
    using present by (rule processOutbox_keeps_non_pending) simp
  with counted present not_pending error_message_nonempty [of e]
  show ?thesis by blast
qed

theorem failed_item_stays_as_error_witness:
  "distinct (map item_id (getOutbox logged_in))
   \<and> pendingItems logged_in = [pie_item]
   \<and> fst (sync_item rejecting_api pie_item logged_in) = Threw (JsError ''Server returned 500'')
   \<and> fst (processOutbox rejecting_api logged_in) = \<lparr>synced = 0, errors = 1\<rparr>
   \<and> pie_item\<lparr>item_status := Error, item_error := Some ''Server returned 500''\<rparr>
        \<in> set (getOutbox (snd (processOutbox rejecting_api logged_in)))
   \<and> pie_item\<lparr>item_status := Error, item_error := Some ''Server returned 500''\<rparr>
        \<notin> set (pendingItems (snd (processOutbox rejecting_api logged_in)))
   \<and> pie_item\<lparr>item_status := Error, item_error := Some ''Server returned 500''\<rparr>
        \<in> set (getOutbox (snd (processOutbox ok_api (snd (processOutbox rejecting_api logged_in)))))"
proof -
  let ?e = "JsError ''Server returned 500''"
  let ?p = "process_item rejecting_api pie_item (logged_in, \<lparr>synced = 0, errors = 0\<rparr>)"
  have 1: "online logged_in" by (simp add: logged_in_def)
  have 2: "distinct (map item_id (getOutbox logged_in))"
    by (simp add: logged_in_def getOutbox_def)
  have 3: "pendingItems logged_in = [] @ pie_item # []"
    by (simp add: logged_in_def pendingItems_def getOutbox_def pie_item_def)
  have 4: "process_items rejecting_api [] (logged_in, \<lparr>synced = 0, errors = 0\<rparr>)
             = (logged_in, \<lparr>synced = 0, errors = 0\<rparr>)" by simp
  have 5: "fst (sync_item rejecting_api pie_item logged_in) = Threw ?e"
    using sync_item_rejected [of logged_in "''jwt''" pie_item rejecting_api
        "\<lparr>resp_ok = False, resp_status = 500, resp_json = JsonNull\<rparr>"]
    by (simp add: logged_in_def pie_item_def rejecting_api_def)
  have m: "error_message ?e = ''Server returned 500''" by (simp add: error_message_def)
  note t = failed_item_stays_as_error [OF 1 2 3 4 5, of ok_api, unfolded m]
  have pass: "processOutbox rejecting_api logged_in = (snd ?p, fst ?p)"
    using 1 3 by (simp add: processOutbox_online)
  from t have "snd ?p = \<lparr>synced = 0, errors = 1\<rparr>" by simp
  with t 2 3 5 show ?thesis by (simp add: pass)
qed

text \<open>
  The claim as stated fails in its last part: a failed item is never retried. The queued
  create is rejected with status 500 and marked \<open>error\<close>; the next pass, against a server
  that would accept it, selects nothing, sends no request and leaves the state as it is.
\<close>

theorem failed_item_stays_as_error_counterexample:
  "fst (processOutbox rejecting_api logged_in) = \<lparr>synced = 0, errors = 1\<rparr>
   \<and> getOutbox (snd (processOutbox rejecting_api logged_in))
       = [pie_item\<lparr>item_status := Error, item_error := Some ''Server returned 500''\<rparr>]
   \<and> calls (snd (processOutbox rejecting_api logged_in)) = [recipe_request ''jwt'' pie_item]
   \<and> processOutbox ok_api (snd (processOutbox rejecting_api logged_in))
       = (\<lparr>synced = 0, errors = 0\<rparr>, snd (processOutbox rejecting_api logged_in))"
  by (simp add: logged_in_def pie_item_def pie_def rejecting_api_def ok_api_def run_defs)

text \<open>
  C2. Starting from an empty outbox, after any sequence of \<open>addToOutbox\<close> calls, a pass
  that runs online, with a token in the store, against a server whose every call
  succeeds leaves the outbox empty and returns \<open>synced\<close> equal to the number of items
  enqueued and \<open>errors\<close> equal to 0. A call succeeds when it gets a success response
  whose body, for an update, parses as JSON and, for a create, parses to a value other
  than \<open>null\<close>; the body of the response to a delete is not constrained. (Identifiers
  may repeat: the clock readings are arbitrary.)
\<close>

theorem drain_with_succeeding_api:
  assumes "getOutbox w = []"
    and "online w"
    and "token w = Some tok" and "tok \<noteq> []"
    and "always_succeeds srv"
  shows "getOutbox (snd (processOutbox srv (enqueue_all es w))) = []
       \<and> fst (processOutbox srv (enqueue_all es w)) = \<lparr>synced = length es, errors = 0\<rparr>"
proof -
  let ?w = "enqueue_all es w"
  let ?s = "(?w, \<lparr>synced = 0, errors = 0\<rparr>)"
  from enqueue_all_outbox [of es w] assms(1) have
    len: "length (getOutbox ?w) = length es"
    and pend: "\<forall>x\<in>set (getOutbox ?w). item_status x = Pending"
    by auto
  from pend have all: "pendingItems ?w = getOutbox ?w"
    by (simp add: pendingItems_def)
  have tok: "token (fst ?s) = Some tok" using assms(3) by simp
  from process_items_all_succeed [OF tok assms(4,5), of "pendingItems ?w"]
  have "getOutbox (fst (process_items srv (pendingItems ?w) ?s)) = []"
    and "snd (process_items srv (pendingItems ?w) ?s) = \<lparr>synced = length es, errors = 0\<rparr>"
    by (simp_all add: all len filter_empty_conv)
  moreover have "online ?w" using assms(2) by simp
  ultimately show ?thesis by (simp add: processOutbox_online)
qed

theorem drain_with_succeeding_api_witness:
  "getOutbox (logged_in\<lparr>outbox := None\<rparr>) = []
   \<and> online (logged_in\<lparr>outbox := None\<rparr>)
   \<and> token (logged_in\<lparr>outbox := None\<rparr>) = Some ''jwt''
   \<and> always_succeeds server_api
   \<and> server_api [] (delete_request ''jwt'' delete_item)
       = Responded \<lparr>resp_ok = True, resp_status = 204,
                    resp_json = JsonThrows (JsError ''Unexpected end of JSON input'')\<rparr>
   \<and> getOutbox (snd (processOutbox server_api
        (enqueue_all
           [(1, 1, \<lparr>new_type = Create, new_data = pie, new_error = None\<rparr>),
            (2, 2, \<lparr>new_type = Update, new_data = item_data stuck_item, new_error = None\<rparr>),
            (3, 3, \<lparr>new_type = Delete, new_data = item_data delete_item, new_error = None\<rparr>)]
           (logged_in\<lparr>outbox := None\<rparr>)))) = []
   \<and> fst (processOutbox server_api
        (enqueue_all
           [(1, 1, \<lparr>new_type = Create, new_data = pie, new_error = None\<rparr>),
            (2, 2, \<lparr>new_type = Update, new_data = item_data stuck_item, new_error = None\<rparr>),
            (3, 3, \<lparr>new_type = Delete, new_data = item_data delete_item, new_error = None\<rparr>)]
           (logged_in\<lparr>outbox := None\<rparr>))) = \<lparr>synced = 3, errors = 0\<rparr>"
proof -
  have 1: "getOutbox (logged_in\<lparr>outbox := None\<rparr>) = []" by (simp add: getOutbox_def)
  have 2: "online (logged_in\<lparr>outbox := None\<rparr>)" by (simp add: logged_in_def)
  have 3: "token (logged_in\<lparr>outbox := None\<rparr>) = Some ''jwt''" by (simp add: logged_in_def)
  have 4: "''jwt'' \<noteq> []" by simp
  have 5: "always_succeeds server_api"
    by (simp add: always_succeeds_def call_succeeds_def server_api_def split: http_method.splits)
  have 6: "server_api [] (delete_request ''jwt'' delete_item)
       = Responded \<lparr>resp_ok = True, resp_status = 204,
                    resp_json = JsonThrows (JsError ''Unexpected end of JSON input'')\<rparr>"
    by (simp add: server_api_def delete_request_def)
  from drain_with_succeeding_api [OF 1 2 3 4 5,
      of "[(1, 1, \<lparr>new_type = Create, new_data = pie, new_error = None\<rparr>),
           (2, 2, \<lparr>new_type = Update, new_data = item_data stuck_item, new_error = None\<rparr>),
           (3, 3, \<lparr>new_type = Delete, new_data = item_data delete_item, new_error = None\<rparr>)]"]
    1 2 3 5 6
  show ?thesis by simp
qed

text \<open>
  The claim as stated fails when the store holds no token: the server is never called,
  the queued create is marked \<open>error\<close> and stays in the outbox.
\<close>

theorem drain_with_succeeding_api_counterexample:
  "getOutbox (logged_in\<lparr>token := None, outbox := None\<rparr>) = []
   \<and> online (logged_in\<lparr>token := None, outbox := None\<rparr>)
   \<and> always_succeeds ok_api
   \<and> fst (processOutbox ok_api
        (enqueue_all [(1, 1, \<lparr>new_type = Create, new_data = pie, new_error = None\<rparr>)]
           (logged_in\<lparr>token := None, outbox := None\<rparr>))) = \<lparr>synced = 0, errors = 1\<rparr>
   \<and> getOutbox (snd (processOutbox ok_api
        (enqueue_all [(1, 1, \<lparr>new_type = Create, new_data = pie, new_error = None\<rparr>)]
           (logged_in\<lparr>token := None, outbox := None\<rparr>))))
       = [pie_item\<lparr>item_status := Error,
                   item_error := Some ''No authentication token available''\<rparr>]"
  by (simp add: always_succeeds_def call_succeeds_def addToOutbox_def logged_in_def
      pie_item_def pie_def ok_api_def run_defs split: http_method.splits)

text \<open>
  C3. A pending \<open>delete\<close> item, reached by the loop after the items \<open>pre\<close> before it,
  whose HTTP call is made (a token is stored) and answered with a non-success response:
  its iteration increments \<open>synced\<close> and leaves \<open>errors\<close> alone, no item with its
  identifier is in the outbox after the iteration, the pass goes on with the items
  \<open>post\<close> behind it, and when the pass completes no item with its identifier is in the
  outbox and the increment is part of the \<open>synced\<close> total returned.
\<close>

theorem delete_failure_counts_as_synced:
  assumes "online w"
    and "pendingItems w = pre @ item # post"
    and "item_type item = Delete"
    and "token w = Some tok" and "tok \<noteq> []"
    and "process_items srv pre (w, \<lparr>synced = 0, errors = 0\<rparr>) = (w1, r1)"
    and "srv (calls w1) (delete_request tok item) = Responded resp"
    and "\<not> resp_ok resp"
  shows "snd (process_item srv item (w1, r1)) = r1\<lparr>synced := synced r1 + 1\<rparr>
       \<and> item_id item \<notin> item_id ` set (getOutbox (fst (process_item srv item (w1, r1))))
       \<and> processOutbox srv w =
           (snd (process_items srv post (process_item srv item (w1, r1))),
            fst (process_items srv post (process_item srv item (w1, r1))))
       \<and> item_id item \<notin> item_id ` set (getOutbox (snd (processOutbox srv w)))
       \<and> synced r1 + 1 \<le> synced (fst (processOutbox srv w))"
proof -
  let ?w1' = "snd (updateOutboxItem (item_id item) syncing_update w1)"
  have tok1: "token w1 = Some tok"
    using process_items_frame(1) [of srv pre "(w, \<lparr>synced = 0, errors = 0\<rparr>)"] assms(4,6)
    by simp
  have "fst (dispatch srv tok item ?w1') = Completed"
    using assms(3,7) by (intro dispatch_delete) simp_all
  then have compl: "fst (sync_item srv item w1) = Completed"
    by (cases "dispatch srv tok item ?w1'") (simp add: sync_item_token [OF tok1 assms(5)])
  have step: "process_item srv item (w1, r1)
      = (snd (sync_item srv item w1), r1\<lparr>synced := synced r1 + 1\<rparr>)"
    using compl by (rule process_item_completed)
  have gone: "item_id item \<notin> item_id ` set (getOutbox (fst (process_item srv item (w1, r1))))"
    using sync_item_completed_removed [OF compl] by (simp add: step)
  have pass: "processOutbox srv w =
           (snd (process_items srv post (process_item srv item (w1, r1))),
            fst (process_items srv post (process_item srv item (w1, r1))))"
    using assms(1,2,6) by (simp add: processOutbox_online process_items_append)
  have "item_id item \<notin> item_id ` set (getOutbox (fst (process_items srv post
          (process_item srv item (w1, r1)))))"
    using gone by (rule process_items_no_new_ids)
  moreover have "synced r1 + 1 \<le> synced (snd (process_items srv post
          (process_item srv item (w1, r1))))"
    using process_items_synced_mono [of "process_item srv item (w1, r1)" srv post]
    by (simp add: step)
  ultimately show ?thesis using step gone pass by simp
qed

theorem delete_failure_counts_as_synced_witness:
  "pendingItems delete_world = [delete_item]
   \<and> item_type delete_item = Delete
   \<and> rejecting_api [] (delete_request ''jwt'' delete_item)
       = Responded \<lparr>resp_ok = False, resp_status = 500, resp_json = JsonNull\<rparr>
   \<and> fst (processOutbox rejecting_api delete_world) = \<lparr>synced = 1, errors = 0\<rparr>
   \<and> ''offline_2'' \<notin> item_id ` set (getOutbox (snd (processOutbox rejecting_api delete_world)))"
proof -
  have 1: "online delete_world" by (simp add: delete_world_def logged_in_def)
  have 2: "pendingItems delete_world = [] @ delete_item # []"
    by (simp add: delete_world_def logged_in_def pendingItems_def getOutbox_def delete_item_def)
  have 3: "item_type delete_item = Delete" by (simp add: delete_item_def)
  have 4: "token delete_world = Some ''jwt''" by (simp add: delete_world_def logged_in_def)
  have 5: "''jwt'' \<noteq> []" by simp
  have 6: "process_items rejecting_api [] (delete_world, \<lparr>synced = 0, errors = 0\<rparr>)
             = (delete_world, \<lparr>synced = 0, errors = 0\<rparr>)" by simp
  have 7: "rejecting_api (calls delete_world) (delete_request ''jwt'' delete_item)
             = Responded \<lparr>resp_ok = False, resp_status = 500, resp_json = JsonNull\<rparr>"
    by (simp add: rejecting_api_def)
  have 8: "\<not> resp_ok \<lparr>resp_ok = False, resp_status = 500, resp_json = JsonNull\<rparr>" by simp
  from delete_failure_counts_as_synced [OF 1 2 3 4 5 6 7 8] 2 3 7
  show ?thesis by (simp add: delete_item_def delete_world_def logged_in_def)
qed

text \<open>
  C4. A pending \<open>create\<close> item, reached by the loop after the items \<open>pre\<close> before it, whose
  call is made (a token is stored) and answered with a success response carrying an
  identifier different from the item's temporary one, while the cached recipe list holds
  exactly one recipe with the temporary identifier: after the item's iteration the cached
  list contains a recipe with the server's identifier and none with the temporary one,
  no outbox item has the item's identifier, and \<open>synced\<close> has been incremented; the pass
  goes on with the items \<open>post\<close> behind it (when there is none, the state after the
  iteration is the state after the pass), and no item with the identifier is in the
  outbox when the pass completes.
\<close>

theorem create_remaps_temporary_id:
  assumes "online w"
    and "pendingItems w = pre @ item # post"
    and "item_type item = Create"
    and "token w = Some tok" and "tok \<noteq> []"
    and "process_items srv pre (w, \<lparr>synced = 0, errors = 0\<rparr>) = (w1, r1)"
    and "srv (calls w1) (recipe_request tok item) = Responded resp"
    and "resp_ok resp" and "resp_json resp = JsonValue server_id"
    and "server_id \<noteq> recipe_id (item_data item)"
    and "length (filter (\<lambda>r. recipe_id r = recipe_id (item_data item)) (getRecipes w1)) = 1"
  shows "server_id \<in> recipe_id ` set (getRecipes (fst (process_item srv item (w1, r1))))
       \<and> recipe_id (item_data item)
            \<notin> recipe_id ` set (getRecipes (fst (process_item srv item (w1, r1))))
       \<and> item_id item \<notin> item_id ` set (getOutbox (fst (process_item srv item (w1, r1))))
       \<and> snd (process_item srv item (w1, r1)) = r1\<lparr>synced := synced r1 + 1\<rparr>
       \<and> processOutbox srv w =
           (snd (process_items srv post (process_item srv item (w1, r1))),
            fst (process_items srv post (process_item srv item (w1, r1))))
       \<and> item_id item \<notin> item_id ` set (getOutbox (snd (processOutbox srv w)))"
proof -
  let ?tid = "recipe_id (item_data item)"
  let ?w1' = "snd (updateOutboxItem (item_id item) syncing_update w1)"
  let ?w2 = "remap_local_id ?tid server_id (?w1'\<lparr>calls := calls ?w1' @ [recipe_request tok item]\<rparr>)"
  have tok1: "token w1 = Some tok"
    using process_items_frame(1) [of srv pre "(w, \<lparr>synced = 0, errors = 0\<rparr>)"] assms(4,6)
    by simp
  have "srv (calls ?w1') (recipe_request tok item) = Responded resp"
    using assms(7) by simp
  then have d: "dispatch srv tok item ?w1' = (Completed, ?w2)"
    using assms(3,8,9,10) by (intro dispatch_create_remaps) simp_all
  have si: "sync_item srv item w1 = (Completed, removeFromOutbox (item_id item) ?w2)"
    by (simp add: sync_item_token [OF tok1 assms(5)] d)
  then have compl: "fst (sync_item srv item w1) = Completed" by simp
  have step: "process_item srv item (w1, r1)
      = (removeFromOutbox (item_id item) ?w2, r1\<lparr>synced := synced r1 + 1\<rparr>)"
    using process_item_completed [OF compl, of r1] by (simp add: si)
  have "length (filter (\<lambda>r. recipe_id r = ?tid)
          (getRecipes (?w1'\<lparr>calls := calls ?w1' @ [recipe_request tok item]\<rparr>))) = 1"
    using assms(11) by simp
  from remap_local_id_recipes [OF this assms(10)]
  have rec: "server_id \<in> recipe_id ` set (getRecipes ?w2)"
    "?tid \<notin> recipe_id ` set (getRecipes ?w2)" by simp_all
  have gone: "item_id item \<notin> item_id ` set (getOutbox (fst (process_item srv item (w1, r1))))"
    by (auto simp: step)
  have pass: "processOutbox srv w =
           (snd (process_items srv post (process_item srv item (w1, r1))),
            fst (process_items srv post (process_item srv item (w1, r1))))"
    using assms(1,2,6) by (simp add: processOutbox_online process_items_append)
  have "item_id item \<notin> item_id ` set (getOutbox (fst (process_items srv post
          (process_item srv item (w1, r1)))))"
    using gone by (rule process_items_no_new_ids)
  with rec gone pass show ?thesis by (simp add: step)
qed

theorem create_remaps_temporary_id_witness:
  "pendingItems logged_in = [pie_item]
   \<and> item_type pie_item = Create
   \<and> recipe_id (item_data pie_item) = StrId ''temp_abc''
   \<and> ok_api [] (recipe_request ''jwt'' pie_item)
       = Responded \<lparr>resp_ok = True, resp_status = 200, resp_json = JsonValue (NumId 42)\<rparr>
   \<and> getRecipes logged_in = [pie]
   \<and> NumId 42 \<in> recipe_id ` set (getRecipes (snd (processOutbox ok_api logged_in)))
   \<and> StrId ''temp_abc'' \<notin> recipe_id ` set (getRecipes (snd (processOutbox ok_api logged_in)))
   \<and> ''offline_1'' \<notin> item_id ` set (getOutbox (snd (processOutbox ok_api logged_in)))
   \<and> fst (processOutbox ok_api logged_in) = \<lparr>synced = 1, errors = 0\<rparr>"
proof -
  let ?resp = "\<lparr>resp_ok = True, resp_status = 200, resp_json = JsonValue (NumId 42)\<rparr>"
  have 1: "online logged_in" by (simp add: logged_in_def)
  have 2: "pendingItems logged_in = [] @ pie_item # []"
    by (simp add: logged_in_def pendingItems_def getOutbox_def pie_item_def)
  have 3: "item_type pie_item = Create" by (simp add: pie_item_def)
  have 4: "token logged_in = Some ''jwt''" by (simp add: logged_in_def)
  have 5: "''jwt'' \<noteq> []" by simp
  have 6: "process_items ok_api [] (logged_in, \<lparr>synced = 0, errors = 0\<rparr>)
             = (logged_in, \<lparr>synced = 0, errors = 0\<rparr>)" by simp
  have 7: "ok_api (calls logged_in) (recipe_request ''jwt'' pie_item) = Responded ?resp"
    by (simp add: ok_api_def)
  have 8: "resp_ok ?resp" by simp
  have 9: "resp_json ?resp = JsonValue (NumId 42)" by simp
  have 10: "NumId 42 \<noteq> recipe_id (item_data pie_item)" by (simp add: pie_item_def pie_def)
  have 11: "length (filter (\<lambda>r. recipe_id r = recipe_id (item_data pie_item))
              (getRecipes logged_in)) = 1"
    by (simp add: logged_in_def getRecipes_def pie_item_def pie_def)
  have 12: "getRecipes logged_in = [pie]" by (simp add: logged_in_def getRecipes_def)
  have 13: "recipe_id (item_data pie_item) = StrId ''temp_abc''"
    by (simp add: pie_item_def pie_def)
  have 14: "item_id pie_item = ''offline_1''" by (simp add: pie_item_def)
  have 15: "pendingItems logged_in = [pie_item]" using 2 by simp
  have 16: "ok_api [] (recipe_request ''jwt'' pie_item) = Responded ?resp"
    by (simp add: ok_api_def)
  let ?p = "process_item ok_api pie_item (logged_in, \<lparr>synced = 0, errors = 0\<rparr>)"
  note t = create_remaps_temporary_id [OF 1 2 3 4 5 6 7 8 9 10 11]
  from t have pass: "processOutbox ok_api logged_in = (snd ?p, fst ?p)" by simp
  from t have "NumId 42 \<in> recipe_id ` set (getRecipes (fst ?p))"
    and "StrId ''temp_abc'' \<notin> recipe_id ` set (getRecipes (fst ?p))"
    and "''offline_1'' \<notin> item_id ` set (getOutbox (fst ?p))"
    and "snd ?p = \<lparr>synced = 1, errors = 0\<rparr>"
    by (simp_all add: 13 14)
  with 3 12 13 15 16 show ?thesis by (simp add: pass)
qed

text \<open>
  The claim as stated fails when the cache holds no recipe with the temporary identifier,
  as after the recipe query has overwritten the cache with the server's list: the create
  succeeds and the item is removed, but no cached recipe carries the server's identifier.
\<close>

theorem create_remaps_temporary_id_counterexample:
  "pendingItems (logged_in\<lparr>recipes := Some [item_data stuck_item]\<rparr>) = [pie_item]
   \<and> item_type pie_item = Create
   \<and> recipe_id (item_data pie_item) = StrId ''temp_abc''
   \<and> ok_api [] (recipe_request ''jwt'' pie_item)
       = Responded \<lparr>resp_ok = True, resp_status = 200, resp_json = JsonValue (NumId 42)\<rparr>
   \<and> fst (processOutbox ok_api (logged_in\<lparr>recipes := Some [item_data stuck_item]\<rparr>))
       = \<lparr>synced = 1, errors = 0\<rparr>
   \<and> getOutbox (snd (processOutbox ok_api (logged_in\<lparr>recipes := Some [item_data stuck_item]\<rparr>)))
       = []
   \<and> NumId 42 \<notin> recipe_id `
        set (getRecipes (snd (processOutbox ok_api
          (logged_in\<lparr>recipes := Some [item_data stuck_item]\<rparr>))))"
  by (simp add: logged_in_def pie_item_def pie_def stuck_item_def ok_api_def run_defs)

text \<open>
  C5. A pass that runs online with no token in the store (the slot is absent or holds the
  empty string), over an outbox whose identifiers are pairwise distinct: every pending
  item is marked \<open>error\<close> with the message \<open>No authentication token available\<close> and
  counted as an error, the loop goes through all pending items (the error count is their
  number, the synced count 0), the other items are unchanged, and no request is sent.
\<close>

theorem no_token_marks_every_pending_item:
  assumes "online w"
    and "token w = None \<or> token w = Some []"
    and "distinct (map item_id (getOutbox w))"
  shows "fst (processOutbox srv w) = \<lparr>synced = 0, errors = length (pendingItems w)\<rparr>
       \<and> getOutbox (snd (processOutbox srv w))
           = map (\<lambda>x. if item_status x = Pending
                       then x\<lparr>item_status := Error,
                              item_error := Some ''No authentication token available''\<rparr>
                       else x) (getOutbox w)
       \<and> calls (snd (processOutbox srv w)) = calls w"
proof -
  let ?s = "(w, \<lparr>synced = 0, errors = 0\<rparr>)"
  from process_items_no_token [of ?s srv "pendingItems w"] assms(2,3)
  have loop: "getOutbox (fst (process_items srv (pendingItems w) ?s))
           = map (\<lambda>x. if item_id x \<in> item_id ` set (pendingItems w)
                       then x\<lparr>item_status := Error, item_error := Some no_token_message\<rparr>
                       else x) (getOutbox w)"
    "snd (process_items srv (pendingItems w) ?s) = \<lparr>synced = 0, errors = length (pendingItems w)\<rparr>"
    "calls (fst (process_items srv (pendingItems w) ?s)) = calls w"
    by simp_all
  have "map (\<lambda>x. if item_id x \<in> item_id ` set (pendingItems w)
                       then x\<lparr>item_status := Error, item_error := Some no_token_message\<rparr>
                       else x) (getOutbox w)
      = map (\<lambda>x. if item_status x = Pending
                       then x\<lparr>item_status := Error,
                              item_error := Some ''No authentication token available''\<rparr>
                       else x) (getOutbox w)"
    using pending_ids_distinct [OF assms(3)]
    by (intro map_cong) (simp_all add: no_token_message_def)
  with loop assms(1) show ?thesis by (simp add: processOutbox_online)
qed

theorem no_token_marks_every_pending_item_witness:
  "online no_token_world \<and> token no_token_world = None
   \<and> distinct (map item_id (getOutbox no_token_world))
   \<and> pendingItems no_token_world = [pie_item, delete_item]
   \<and> fst (processOutbox ok_api no_token_world) = \<lparr>synced = 0, errors = 2\<rparr>
   \<and> getOutbox (snd (processOutbox ok_api no_token_world))
       = [pie_item\<lparr>item_status := Error,
                   item_error := Some ''No authentication token available''\<rparr>,
          delete_item\<lparr>item_status := Error,
                      item_error := Some ''No authentication token available''\<rparr>]
   \<and> calls (snd (processOutbox ok_api no_token_world)) = []"
proof -
  have 1: "online no_token_world" by (simp add: no_token_world_def logged_in_def)
  have 2: "token no_token_world = None \<or> token no_token_world = Some []"
    by (simp add: no_token_world_def logged_in_def)
  have 3: "distinct (map item_id (getOutbox no_token_world))"
    by (simp add: no_token_world_def logged_in_def getOutbox_def pie_item_def delete_item_def)
  have 4: "pendingItems no_token_world = [pie_item, delete_item]"
    by (simp add: no_token_world_def logged_in_def getOutbox_def pie_item_def delete_item_def
        pendingItems_def)
  from no_token_marks_every_pending_item [OF 1 2 3, of ok_api] 1 3 4
  show ?thesis
    by (simp add: no_token_world_def logged_in_def getOutbox_def pie_item_def delete_item_def)
qed

text \<open>
  The claim as stated fails when two pending items share an identifier: with the two
  creates queued within one millisecond and no token, both iterations mark the first
  item, and the second one, counted as an error, is still \<open>pending\<close> after the pass.
\<close>

theorem no_token_marks_every_pending_item_counterexample:
  "pendingItems (twins\<lparr>token := None\<rparr>) = [pie_item, tart_item]
   \<and> fst (processOutbox ok_api (twins\<lparr>token := None\<rparr>)) = \<lparr>synced = 0, errors = 2\<rparr>
   \<and> getOutbox (snd (processOutbox ok_api (twins\<lparr>token := None\<rparr>)))
       = [pie_item\<lparr>item_status := Error,
                   item_error := Some ''No authentication token available''\<rparr>,
          tart_item]
   \<and> item_status tart_item = Pending"
  by (simp add: twins_outbox logged_in_def pie_item_def tart_item_def pie_def tart_def
      ok_api_def run_defs)

text \<open>
  C6. If \<open>navigator.onLine\<close> is false when \<open>processOutbox\<close> is called, the call returns
  \<open>{synced: 0, errors: 0}\<close> and the whole state is as before: every outbox item keeps
  its status, none is marked \<open>error\<close>, and no request is sent.
\<close>

theorem processOutbox_offline:
  "\<not> online w \<Longrightarrow> processOutbox srv w = (\<lparr>synced = 0, errors = 0\<rparr>, w)"
  by (simp add: processOutbox_def)

theorem processOutbox_offline_witness:
  "\<not> online (logged_in\<lparr>online := False\<rparr>)
   \<and> getOutbox (logged_in\<lparr>online := False\<rparr>) = [pie_item]
   \<and> processOutbox rejecting_api (logged_in\<lparr>online := False\<rparr>)
       = (\<lparr>synced = 0, errors = 0\<rparr>, logged_in\<lparr>online := False\<rparr>)"
  using processOutbox_offline [of "logged_in\<lparr>online := False\<rparr>" rejecting_api]
  by (simp add: logged_in_def getOutbox_def)

text \<open>
  C7. If no item of the outbox has status \<open>pending\<close>, \<open>processOutbox\<close> returns
  \<open>{synced: 0, errors: 0}\<close> and sends no request: the state, with its log of requests,
  is unchanged.
\<close>

theorem processOutbox_nothing_pending:
  assumes "\<forall>item\<in>set (getOutbox w). item_status item \<noteq> Pending"
  shows "processOutbox srv w = (\<lparr>synced = 0, errors = 0\<rparr>, w)
         \<and> calls (snd (processOutbox srv w)) = calls w"
proof -
  from assms have "pendingItems w = []"
    by (simp add: pendingItems_def filter_empty_conv)
  then show ?thesis by (simp add: processOutbox_def)
qed

theorem processOutbox_nothing_pending_witness:
  "pendingItems (logged_in\<lparr>outbox := Some [pie_item\<lparr>item_status := Syncing\<rparr>]\<rparr>) = []
   \<and> fst (processOutbox ok_api (logged_in\<lparr>outbox := Some [pie_item\<lparr>item_status := Syncing\<rparr>]\<rparr>))
       = \<lparr>synced = 0, errors = 0\<rparr>
   \<and> calls (snd (processOutbox ok_api
        (logged_in\<lparr>outbox := Some [pie_item\<lparr>item_status := Syncing\<rparr>]\<rparr>))) = []"
  using processOutbox_nothing_pending
    [of "logged_in\<lparr>outbox := Some [pie_item\<lparr>item_status := Syncing\<rparr>]\<rparr>" ok_api]
  by (simp add: logged_in_def getOutbox_def pendingItems_def)



text \<open>
  C9. In an outbox whose identifiers are pairwise distinct, a pass leaves every item that
  is not \<open>pending\<close> at its start exactly as it was: the items of the final outbox other
  than those pending at the start are the non-pending items of the start, in their order
  and unchanged; and every request the pass sends is the request of an item that was
  pending at the start.
\<close>

theorem non_pending_items_untouched:
  assumes "distinct (map item_id (getOutbox w))"
  shows "filter (\<lambda>x. item_id x \<notin> item_id ` set (pendingItems w))
             (getOutbox (snd (processOutbox srv w)))
           = filter (\<lambda>x. item_status x \<noteq> Pending) (getOutbox w)
       \<and> (\<forall>x\<in>set (getOutbox w). item_status x \<noteq> Pending \<longrightarrow>
             x \<in> set (getOutbox (snd (processOutbox srv w))))
       \<and> (\<exists>new. calls (snd (processOutbox srv w)) = calls w @ new
             \<and> (\<forall>rq\<in>set new. \<exists>it\<in>set (pendingItems w).
                   rq = (if item_type it = Delete then delete_request (req_bearer rq) it
                         else recipe_request (req_bearer rq) it)))"
proof -
  let ?Q = "item_id ` set (pendingItems w)"
  let ?w' = "snd (processOutbox srv w)"
  have start: "filter (\<lambda>x. item_id x \<notin> ?Q) (getOutbox w)
               = filter (\<lambda>x. item_status x \<noteq> Pending) (getOutbox w)"
    using pending_ids_distinct [OF assms] by (intro filter_cong) simp_all
  have kept: "filter (\<lambda>x. item_id x \<notin> ?Q) (getOutbox ?w') = filter (\<lambda>x. item_id x \<notin> ?Q) (getOutbox w)"
  proof (cases "online w")
    case True
    have "filter (\<lambda>x. item_id x \<notin> ?Q)
            (getOutbox (fst (process_items srv (pendingItems w) (w, \<lparr>synced = 0, errors = 0\<rparr>))))
          = filter (\<lambda>x. item_id x \<notin> ?Q) (getOutbox (fst (w, \<lparr>synced = 0, errors = 0\<rparr>)))"
      by (rule process_items_filter) simp
    with True show ?thesis by (simp add: processOutbox_online)
  next
    case False
    then show ?thesis by (simp add: processOutbox_def)
  qed
  have first: "filter (\<lambda>x. item_id x \<notin> ?Q) (getOutbox ?w')
                = filter (\<lambda>x. item_status x \<noteq> Pending) (getOutbox w)"
    using kept start by simp
  have second: "\<forall>x\<in>set (getOutbox w). item_status x \<noteq> Pending \<longrightarrow> x \<in> set (getOutbox ?w')"
  proof (intro ballI impI)
    fix x assume "x \<in> set (getOutbox w)" "item_status x \<noteq> Pending"
    then have "x \<in> set (filter (\<lambda>x. item_status x \<noteq> Pending) (getOutbox w))" by simp
    with first have "x \<in> set (filter (\<lambda>x. item_id x \<notin> ?Q) (getOutbox ?w'))" by simp
    then show "x \<in> set (getOutbox ?w')" by simp
  qed
  have third: "\<exists>new. calls ?w' = calls w @ new
             \<and> (\<forall>rq\<in>set new. \<exists>it\<in>set (pendingItems w).
                   rq = (if item_type it = Delete then delete_request (req_bearer rq) it
                         else recipe_request (req_bearer rq) it))"
  proof (cases "online w")
    case True
    with process_items_calls [of srv "pendingItems w" "(w, \<lparr>synced = 0, errors = 0\<rparr>)"]
    show ?thesis by (simp add: processOutbox_online)
  next
    case False
    then show ?thesis by (simp add: processOutbox_def)
  qed
  from first second third show ?thesis by blast
qed

theorem non_pending_items_untouched_witness:
  "distinct (map item_id (getOutbox mixed_world))
   \<and> item_status stuck_item = Error
   \<and> pendingItems mixed_world = [pie_item]
   \<and> stuck_item \<in> set (getOutbox (snd (processOutbox ok_api mixed_world)))"
proof -
  have d: "distinct (map item_id (getOutbox mixed_world))"
    by (simp add: mixed_world_def logged_in_def getOutbox_def stuck_item_def pie_item_def)
  have s: "stuck_item \<in> set (getOutbox mixed_world)" "item_status stuck_item \<noteq> Pending"
    by (simp_all add: mixed_world_def logged_in_def getOutbox_def stuck_item_def)
  have p: "pendingItems mixed_world = [pie_item]"
    by (simp add: mixed_world_def logged_in_def getOutbox_def stuck_item_def pie_item_def
        pendingItems_def)
  from non_pending_items_untouched [OF d, of ok_api] s
  have "stuck_item \<in> set (getOutbox (snd (processOutbox ok_api mixed_world)))" by blast
  with d p show ?thesis by (simp add: stuck_item_def)
qed

text \<open>
  The claim as stated fails when two items share an identifier. Two creates queued within
  one millisecond are both \<open>offline_1\<close>; a pass against a rejecting server marks the
  first of them \<open>error\<close> and leaves the second \<open>pending\<close>; the next pass, working on the
  second, removes both: the item whose status was \<open>error\<close> at the start of that pass is
  gone after it.
\<close>

theorem non_pending_items_untouched_counterexample:
  "getOutbox (snd (processOutbox rejecting_api twins))
     = [pie_item\<lparr>item_status := Error, item_error := Some ''Server returned 500''\<rparr>, tart_item]
   \<and> getOutbox (snd (processOutbox ok_api (snd (processOutbox rejecting_api twins)))) = []"
  by (simp add: twins_outbox logged_in_def pie_item_def tart_item_def pie_def tart_def
      rejecting_api_def ok_api_def run_defs)

text \<open>
  C10. \<open>clearOfflineData\<close> deletes the \<open>user\<close>, \<open>token\<close> and \<open>outbox\<close> slots and leaves the
  \<open>recipes\<close> slot as it was. Its comment says it runs on logout, but the store calls of
  \<open>logout\<close> are \<open>clearToken\<close> and \<open>clearUser\<close> only: a logout deletes the \<open>user\<close> and
  \<open>token\<close> slots, leaves the \<open>recipes\<close> slot as it was, and leaves the \<open>outbox\<close> slot as it
  was too, where \<open>clearOfflineData\<close> deletes it. For the logged-in client with the pie
  queued, the queued create is still in the store after the logout.
\<close>

theorem logout_leaves_outbox:
  "clearOfflineData w = w\<lparr>user := None, token := None, outbox := None\<rparr>
   \<and> recipes (clearOfflineData w) = recipes w
   \<and> logout w = w\<lparr>token := None, user := None\<rparr>
   \<and> recipes (logout w) = recipes w
   \<and> outbox (logout w) = outbox w
   \<and> outbox (clearOfflineData logged_in) = None
   \<and> outbox (logout logged_in) = Some [pie_item]"
  by (simp add: clearOfflineData_def clearUser_def clearToken_def logout_def logged_in_def)

end
